theory Spec2Isabelle
  imports Main "HOL-Library.Signed_Division"
begin

unbundle bit_operations_syntax

section \<open>Constants of main.c\<close>

definition SUSPENSION_TIME :: nat where "SUSPENSION_TIME = 2000"
definition CHECK_STATE_TIME :: nat where "CHECK_STATE_TIME = 1000"

definition ROTATION_POWER :: int where "ROTATION_POWER = 30"
definition ELEVATION_UP_POWER :: int where "ELEVATION_UP_POWER = - 30"
definition ELEVATION_DOWN_POWER :: int where "ELEVATION_DOWN_POWER = 20"
definition CLAW_POWER :: int where "CLAW_POWER = 40"

definition ROTATION_INIT_UNITS :: int where "ROTATION_INIT_UNITS = - 350"
definition ELEVATION_INIT_UNITS :: int where "ELEVATION_INIT_UNITS = 100"
definition CLAW_INIT_UNITS :: int where "CLAW_INIT_UNITS = 90"

definition TOUCH_SENSOR_ACTIVE :: int where "TOUCH_SENSOR_ACTIVE = 1"
definition TOUCH_SENSOR_INACTIVE :: int where "TOUCH_SENSOR_INACTIVE = 0"
definition REFLECTION_LIMIT :: int where "REFLECTION_LIMIT = 30"

definition STEP_ROTATION_SPEED :: int where "STEP_ROTATION_SPEED = 40"
definition STEP_ELEVATION_SPEED :: int where "STEP_ELEVATION_SPEED = 20"
definition STEP_CLAW_SPEED :: int where "STEP_CLAW_SPEED = 40"

definition MOTOR_LIMIT :: int where "MOTOR_LIMIT = 9"

definition TOP_BOTTOM_POS :: int where "TOP_BOTTOM_POS = 200"
definition TOP_LEFT_POS :: int where "TOP_LEFT_POS = - 400"

definition CLAW_CLOSE_TIME :: nat where "CLAW_CLOSE_TIME = 500000"

definition X_TITLE :: int where "X_TITLE = 20"
definition Y_TITLE :: int where "Y_TITLE = 10"
definition TITLE :: string where "TITLE = ''LEGO - ROBOTIC ARM''"
definition RADIUS :: int where "RADIUS = 35"
definition COLOR_CIRCLE :: int where "COLOR_CIRCLE = 1"
definition X_TIME :: int where "X_TIME = 60"

definition BUTTON_PERIOD :: nat where "BUTTON_PERIOD = 180000000"
definition COLOR_PERIOD :: nat where "COLOR_PERIOD = 200000000"
definition TOUCH_PERIOD :: nat where "TOUCH_PERIOD = 200000000"
definition MOTOR_PERIOD :: nat where "MOTOR_PERIOD = 90000000"
definition LED_PERIOD :: nat where "LED_PERIOD = 40000000"
definition REPORTER_PERIOD :: nat where "REPORTER_PERIOD = 500000000"

text \<open>
  Modelled from the spec: the bit \<open>MOTOR_RUNNING\<close> of the motor state comes from ev3c.h,
  which is not part of the sources. The spec (6.5) gives 9 as the state value denoting
  RUNNING + STALLED, and (6.3) a state bitset with RUNNING and STALLED bits; RUNNING is
  taken as bit 0.
\<close>
definition MOTOR_RUNNING :: int where "MOTOR_RUNNING = 1"

section \<open>Enumerations and shared observables\<close>

datatype stop_mode = COAST | BRAKE | HOLD

datatype commands = RUN_FOREVER | RUN_ABS_POS | RUN_REL_POS | RUN_TIMED | RUN_DIRECT | STOP | RESET

datatype actions_rotation = ROTATE_RIGHT | ROTATE_LEFT | ROTATE_STOP

datatype actions_elevation = RISE | LOWER | ELEVATE_STOP

datatype actions_claw = ACTIVE | INACTIVE

datatype color_command = COL_REFLECT | COL_AMBIENT | COL_COLOR

datatype motor = Rotation_motor | Elevation_motor | Claw_motor

datatype sensor = Color_sensor | Touch_sensor

datatype button = BUTTON_LEFT | BUTTON_RIGHT | BUTTON_UP | BUTTON_DOWN | BUTTON_CENTER | BUTTON_BACK

datatype led = LEFT_LED | RIGHT_LED

datatype led_color = RED_LED | GREEN_LED

text \<open>The six mutexes, one per global structure of main.c.\<close>

datatype mutex =
  Motors_mutex | Top_mutex | Clockwise_mutex | Close_mutex | Correction_mutex | Claw_used_mutex

text \<open>
  The global structures \<open>new_motors_status\<close>, \<open>top_limit\<close>, \<open>clockwise_limit\<close>,
  \<open>close_condition\<close>, \<open>correction\<close> and \<open>claw_used\<close>, without their mutexes.
\<close>

record shared =
  rotation :: actions_rotation
  elevation :: actions_elevation
  claw :: actions_claw
  top_limit_reached :: bool
  clockwise_limit_reached :: bool
  close :: bool
  correction_in_progress :: bool
  claw_used_status :: bool

section \<open>Events: what a thread does to the outside\<close>

text \<open>An assignment to a field of a global structure.\<close>

datatype store =
  W_rotation actions_rotation
| W_elevation actions_elevation
| W_claw actions_claw
| W_top_limit_reached bool
| W_clockwise_limit_reached bool
| W_close bool
| W_correction_in_progress bool
| W_claw_used_status bool

text \<open>A call of the ev3c motor interface on one motor.\<close>

datatype motor_op =
  Set_duty_cycle_sp int
| Set_position_sp int
| Set_speed_sp int
| Set_position int
| Stop_action stop_mode
| Command commands
| Get_position
| Motor_state
| Reset_motor
| Open_motor
| Search_motor

datatype sensor_op = Update_sensor_val | Search_sensor | Open_sensor | Mode_sensor color_command | Close_sensor

datatype lcd_op =
  Init_lcd
| Clear_lcd
| Text_lcd_normal int int string
| Circle_lcd int int int int
| Circle_lcd_out int int int int

datatype event =
  Mutex_lock mutex
| Mutex_unlock mutex
| Write store
| Motor motor motor_op
| Sensor sensor sensor_op
| Button_pressed button
| Init_button
| Init_led
| Set_led led led_color int
| Lcd lcd_op
| Load_motors
| Load_sensors
| Usleep nat
| Clock_gettime
| Clock_nanosleep nat
| Time_now
| Printf string
| Chk_exit

text \<open>The effect of one event on the global structures: only assignments change them.\<close>

fun apply_write :: "store \<Rightarrow> shared \<Rightarrow> shared" where
  "apply_write (W_rotation a) s = s\<lparr>rotation := a\<rparr>"
| "apply_write (W_elevation a) s = s\<lparr>elevation := a\<rparr>"
| "apply_write (W_claw a) s = s\<lparr>claw := a\<rparr>"
| "apply_write (W_top_limit_reached b) s = s\<lparr>top_limit_reached := b\<rparr>"
| "apply_write (W_clockwise_limit_reached b) s = s\<lparr>clockwise_limit_reached := b\<rparr>"
| "apply_write (W_close b) s = s\<lparr>close := b\<rparr>"
| "apply_write (W_correction_in_progress b) s = s\<lparr>correction_in_progress := b\<rparr>"
| "apply_write (W_claw_used_status b) s = s\<lparr>claw_used_status := b\<rparr>"

fun apply_event :: "event \<Rightarrow> shared \<Rightarrow> shared" where
  "apply_event (Write w) s = apply_write w s"
| "apply_event _ s = s"

fun run_events :: "event list \<Rightarrow> shared \<Rightarrow> shared" where
  "run_events [] s = s"
| "run_events (ev # evs) s = run_events evs (apply_event ev s)"

section \<open>What a thread reads from the devices during one period\<close>

text \<open>
  The values the device layer hands to a thread during one iteration of its loop.
  \<open>motor_states k\<close> is the result of the \<open>k\<close>-th call of \<open>ev3_motor_state\<close> in the
  iteration. \<open>dev_rc k\<close> is what the \<open>k\<close>-th device call of the iteration returns as its own
  result; main.c calls every device operation as a statement and never looks at it.
  \<open>sleep_rc\<close> is the result of \<open>clock_nanosleep\<close>, the only call checked (with \<open>CHK\<close>).
\<close>

record env =
  pressed :: "button \<Rightarrow> bool"
  sensor_val :: int
  position :: int
  motor_states :: "nat \<Rightarrow> int"
  dev_rc :: "nat \<Rightarrow> int"
  sleep_rc :: int
  tm_hour :: int
  tm_min :: int
  tm_sec :: int

section \<open>Waiting for a motor to stop\<close>

text \<open>
  \<open>while ((ev3_motor_state (m) & MOTOR_RUNNING)) { usleep(CHECK_STATE_TIME); }\<close>:
  the loop ends at the first reading without the RUNNING bit, and never if there is none.
  The result is the number of times the body ran.
\<close>

partial_function (option) wait_motor_stop :: "(nat \<Rightarrow> int) \<Rightarrow> nat \<Rightarrow> nat option" where
  "wait_motor_stop st k =
     (if st k AND MOTOR_RUNNING \<noteq> 0 then wait_motor_stop st (Suc k) else Some k)"

text \<open>The events of that loop when its body ran \<open>n\<close> times.\<close>

definition wait_trace :: "motor \<Rightarrow> nat \<Rightarrow> event list" where
  "wait_trace m n =
     concat (replicate n [Motor m Motor_state, Usleep CHECK_STATE_TIME]) @ [Motor m Motor_state]"

section \<open>Auxiliary functions\<close>

definition is_close_pressed :: "shared \<Rightarrow> bool \<times> event list" where
  "is_close_pressed s = (close s, [Mutex_lock Close_mutex, Mutex_unlock Close_mutex])"

definition is_clockwise_limit_reached :: "shared \<Rightarrow> bool \<times> event list" where
  "is_clockwise_limit_reached s =
     (clockwise_limit_reached s, [Mutex_lock Clockwise_mutex, Mutex_unlock Clockwise_mutex])"

definition is_top_limit_reached :: "shared \<Rightarrow> bool \<times> event list" where
  "is_top_limit_reached s =
     (top_limit_reached s, [Mutex_lock Top_mutex, Mutex_unlock Top_mutex])"

text \<open>An assignment to a global field under its mutex.\<close>

definition locked_write :: "mutex \<Rightarrow> store \<Rightarrow> event list" where
  "locked_write mx w = [Mutex_lock mx, Write w, Mutex_unlock mx]"

section \<open>Rotation controller\<close>

text \<open>
  The body of the loop of \<open>rotation_motor_controller\<close>, from the snapshot of the intent to
  the end of the if-chain. The local \<open>rotation_actual\<close> is passed in and returned; the
  result is \<open>None\<close> when a recovery waits for a motor that never stops.
\<close>

definition rotation_motor_controller_body ::
  "env \<Rightarrow> actions_rotation \<Rightarrow> shared \<Rightarrow> (actions_rotation \<times> event list) option" where
  "rotation_motor_controller_body e rotation_actual s =
     (let rotation_next = rotation s;
          snapshot = [Mutex_lock Motors_mutex, Mutex_unlock Motors_mutex]
      in if fst (is_clockwise_limit_reached s) then
           (case wait_motor_stop (motor_states e) 0 of
              None \<Rightarrow> None
            | Some n \<Rightarrow> Some (ROTATE_STOP,
                snapshot @ snd (is_clockwise_limit_reached s)
                @ locked_write Correction_mutex (W_correction_in_progress True)
                @ [Motor Rotation_motor (Set_position_sp ROTATION_INIT_UNITS),
                   Motor Rotation_motor (Command RUN_REL_POS),
                   Usleep SUSPENSION_TIME]
                @ wait_trace Rotation_motor n
                @ locked_write Clockwise_mutex (W_clockwise_limit_reached False)
                @ [Motor Rotation_motor (Set_duty_cycle_sp 0),
                   Motor Rotation_motor (Command RUN_DIRECT)]
                @ locked_write Correction_mutex (W_correction_in_progress False)))
         else if position e < TOP_LEFT_POS then
           (case wait_motor_stop (motor_states e) 0 of
              None \<Rightarrow> None
            | Some n \<Rightarrow> Some (ROTATE_STOP,
                snapshot @ snd (is_clockwise_limit_reached s)
                @ [Motor Rotation_motor Get_position]
                @ locked_write Correction_mutex (W_correction_in_progress True)
                @ [Motor Rotation_motor (Set_position_sp 0),
                   Motor Rotation_motor (Command RUN_ABS_POS),
                   Usleep SUSPENSION_TIME]
                @ wait_trace Rotation_motor n
                @ [Motor Rotation_motor (Set_duty_cycle_sp 0),
                   Motor Rotation_motor (Command RUN_DIRECT)]
                @ locked_write Correction_mutex (W_correction_in_progress False)))
         else if rotation_actual \<noteq> rotation_next then
           Some (rotation_next,
             snapshot @ snd (is_clockwise_limit_reached s)
             @ [Motor Rotation_motor Get_position]
             @ [Motor Rotation_motor (Set_duty_cycle_sp
                  (case rotation_next of
                     ROTATE_RIGHT \<Rightarrow> ROTATION_POWER
                   | ROTATE_LEFT \<Rightarrow> - ROTATION_POWER
                   | ROTATE_STOP \<Rightarrow> 0))])
         else
           Some (rotation_actual,
             snapshot @ snd (is_clockwise_limit_reached s)
             @ [Motor Rotation_motor Get_position]))"

section \<open>Elevation controller\<close>

text \<open>The body of the loop of \<open>elevation_motor_controller\<close>; same shape, other constants.\<close>

definition elevation_motor_controller_body ::
  "env \<Rightarrow> actions_elevation \<Rightarrow> shared \<Rightarrow> (actions_elevation \<times> event list) option" where
  "elevation_motor_controller_body e elevation_actual s =
     (let elevation_next = elevation s;
          snapshot = [Mutex_lock Motors_mutex, Mutex_unlock Motors_mutex]
      in if fst (is_top_limit_reached s) then
           (case wait_motor_stop (motor_states e) 0 of
              None \<Rightarrow> None
            | Some n \<Rightarrow> Some (ELEVATE_STOP,
                snapshot @ snd (is_top_limit_reached s)
                @ locked_write Correction_mutex (W_correction_in_progress True)
                @ [Motor Elevation_motor (Set_position_sp ELEVATION_INIT_UNITS),
                   Motor Elevation_motor (Command RUN_REL_POS),
                   Usleep SUSPENSION_TIME]
                @ wait_trace Elevation_motor n
                @ locked_write Top_mutex (W_top_limit_reached False)
                @ [Motor Elevation_motor (Set_duty_cycle_sp 0),
                   Motor Elevation_motor (Command RUN_DIRECT)]
                @ locked_write Correction_mutex (W_correction_in_progress False)))
         else if position e > TOP_BOTTOM_POS then
           (case wait_motor_stop (motor_states e) 0 of
              None \<Rightarrow> None
            | Some n \<Rightarrow> Some (ELEVATE_STOP,
                snapshot @ snd (is_top_limit_reached s)
                @ [Motor Elevation_motor Get_position]
                @ locked_write Correction_mutex (W_correction_in_progress True)
                @ [Motor Elevation_motor (Set_position_sp 0),
                   Motor Elevation_motor (Command RUN_ABS_POS),
                   Usleep SUSPENSION_TIME]
                @ wait_trace Elevation_motor n
                @ [Motor Elevation_motor (Set_duty_cycle_sp 0),
                   Motor Elevation_motor (Command RUN_DIRECT)]
                @ locked_write Correction_mutex (W_correction_in_progress False)))
         else if elevation_actual \<noteq> elevation_next then
           Some (elevation_next,
             snapshot @ snd (is_top_limit_reached s)
             @ [Motor Elevation_motor Get_position]
             @ [Motor Elevation_motor (Set_duty_cycle_sp
                  (case elevation_next of
                     RISE \<Rightarrow> ELEVATION_UP_POWER
                   | LOWER \<Rightarrow> ELEVATION_DOWN_POWER
                   | ELEVATE_STOP \<Rightarrow> 0))])
         else
           Some (elevation_actual,
             snapshot @ snd (is_top_limit_reached s)
             @ [Motor Elevation_motor Get_position]))"

section \<open>Claw controller\<close>

text \<open>The body of the loop of \<open>claw_motor_controller\<close>; its local is \<open>claw_open\<close>.\<close>

definition claw_motor_controller_body ::
  "env \<Rightarrow> bool \<Rightarrow> shared \<Rightarrow> (bool \<times> event list) option" where
  "claw_motor_controller_body e claw_open s =
     (let claw_status = claw s;
          snapshot = [Mutex_lock Motors_mutex, Mutex_unlock Motors_mutex]
      in if claw_status = ACTIVE then
           (if claw_open then
              Some (False,
                snapshot
                @ [Motor Claw_motor (Set_duty_cycle_sp (- CLAW_POWER)),
                   Motor Claw_motor (Command RUN_DIRECT),
                   Usleep CLAW_CLOSE_TIME,
                   Motor Claw_motor (Set_duty_cycle_sp 0)]
                @ locked_write Claw_used_mutex (W_claw_used_status True)
                @ locked_write Motors_mutex (W_claw INACTIVE))
            else
              (case wait_motor_stop (motor_states e) 0 of
                 None \<Rightarrow> None
               | Some n \<Rightarrow> Some (True,
                   snapshot
                   @ [Motor Claw_motor (Set_position_sp 0),
                      Motor Claw_motor (Command RUN_ABS_POS),
                      Usleep SUSPENSION_TIME]
                   @ wait_trace Claw_motor n
                   @ [Motor Claw_motor (Set_duty_cycle_sp 0),
                      Motor Claw_motor (Command RUN_DIRECT)]
                   @ locked_write Claw_used_mutex (W_claw_used_status False)
                   @ locked_write Motors_mutex (W_claw INACTIVE))))
         else Some (claw_open, snapshot))"

section \<open>Button sampler\<close>

text \<open>
  The body of the loop of \<open>buttons_controller\<close>. Each key is read at most once per
  iteration, so one value per key describes what the reads return.
\<close>

definition buttons_controller_body :: "env \<Rightarrow> event list" where
  "buttons_controller_body e =
     [Mutex_lock Motors_mutex]
     @ [Button_pressed BUTTON_LEFT]
     @ (if pressed e BUTTON_LEFT then
          [Button_pressed BUTTON_RIGHT]
          @ (if pressed e BUTTON_RIGHT then [Write (W_rotation ROTATE_STOP)]
             else [Write (W_rotation ROTATE_LEFT)])
        else
          [Button_pressed BUTTON_RIGHT]
          @ (if pressed e BUTTON_RIGHT then [Write (W_rotation ROTATE_RIGHT)]
             else [Write (W_rotation ROTATE_STOP)]))
     @ [Button_pressed BUTTON_UP]
     @ (if pressed e BUTTON_UP then
          [Button_pressed BUTTON_DOWN]
          @ (if pressed e BUTTON_DOWN then [Write (W_elevation ELEVATE_STOP)]
             else [Write (W_elevation RISE)])
        else
          [Button_pressed BUTTON_DOWN]
          @ (if pressed e BUTTON_DOWN then [Write (W_elevation LOWER)]
             else [Write (W_elevation ELEVATE_STOP)]))
     @ [Button_pressed BUTTON_CENTER]
     @ (if pressed e BUTTON_CENTER then [Write (W_claw ACTIVE)]
        else [Write (W_claw INACTIVE)])
     @ [Mutex_unlock Motors_mutex]
     @ [Mutex_lock Close_mutex]
     @ [Button_pressed BUTTON_BACK]
     @ (if pressed e BUTTON_BACK then [Write (W_close True)] else [])
     @ [Mutex_unlock Close_mutex]"

section \<open>Colour and touch samplers\<close>

definition color_sensor_controller_body :: "env \<Rightarrow> event list" where
  "color_sensor_controller_body e =
     (let color_data = sensor_val e
      in [Sensor Color_sensor Update_sensor_val]
         @ (if color_data \<ge> REFLECTION_LIMIT
            then locked_write Top_mutex (W_top_limit_reached True) else []))"

definition touch_sensor_controller_body :: "env \<Rightarrow> event list" where
  "touch_sensor_controller_body e =
     (let touch_data = sensor_val e
      in [Sensor Touch_sensor Update_sensor_val]
         @ (if touch_data = TOUCH_SENSOR_ACTIVE
            then locked_write Clockwise_mutex (W_clockwise_limit_reached True) else []))"

section \<open>LED reporter\<close>

text \<open>The body of the loop of \<open>leds_controller\<close>; its local is \<open>previous\<close>.\<close>

definition leds_controller_body :: "bool \<Rightarrow> shared \<Rightarrow> bool \<times> event list" where
  "leds_controller_body previous s =
     (let actual = correction_in_progress s;
          snapshot = [Mutex_lock Correction_mutex, Mutex_unlock Correction_mutex]
      in if actual \<and> \<not> previous then
           (True, snapshot
              @ [Set_led LEFT_LED RED_LED 255, Set_led RIGHT_LED RED_LED 255,
                 Set_led LEFT_LED GREEN_LED 0, Set_led RIGHT_LED GREEN_LED 0])
         else if \<not> actual \<and> previous then
           (False, snapshot
              @ [Set_led LEFT_LED GREEN_LED 255, Set_led RIGHT_LED GREEN_LED 255,
                 Set_led LEFT_LED RED_LED 0, Set_led RIGHT_LED RED_LED 0])
         else (previous, snapshot))"

section \<open>LCD reporter\<close>

text \<open>
  \<open>sprintf(time_str, "%02d:%02d:%02d", hour, minute, second)\<close>. The fields come from
  \<open>localtime\<close>, so they lie between 0 and 60 and each prints as two digits; \<open>fmt_02d\<close>
  is the conversion \<open>%02d\<close> on that range.
\<close>

definition fmt_02d :: "int \<Rightarrow> string" where
  "fmt_02d i = [''0123456789'' ! (nat i div 10 mod 10), ''0123456789'' ! (nat i mod 10)]"

text \<open>
  The body of the loop of \<open>reporter\<close>. \<open>EV3_X_LCD\<close> and \<open>EV3_Y_LCD\<close> are constants of
  ev3c.h, which is not part of the sources; they are parameters here. \<open>X_CIRCLE\<close>,
  \<open>Y_CIRCLE\<close> and \<open>Y_TIME\<close> are macros over them.
\<close>

definition reporter_body :: "int \<Rightarrow> int \<Rightarrow> env \<Rightarrow> shared \<Rightarrow> event list" where
  "reporter_body EV3_X_LCD EV3_Y_LCD e s =
     (let claw_status = claw_used_status s;
          time_str = fmt_02d (tm_hour e) @ '':'' @ fmt_02d (tm_min e) @ '':'' @ fmt_02d (tm_sec e)
      in [Lcd Clear_lcd, Mutex_lock Claw_used_mutex, Mutex_unlock Claw_used_mutex,
          Time_now, Time_now,
          Lcd (Text_lcd_normal X_TITLE Y_TITLE TITLE)]
         @ (if claw_status
            then [Lcd (Circle_lcd (EV3_X_LCD sdiv 2) (EV3_Y_LCD sdiv 2) RADIUS COLOR_CIRCLE)]
            else [Lcd (Circle_lcd_out (EV3_X_LCD sdiv 2) (EV3_Y_LCD sdiv 2) RADIUS COLOR_CIRCLE)])
         @ [Lcd (Text_lcd_normal X_TIME (EV3_Y_LCD - 20) time_str)])"

section \<open>One iteration of a periodic thread\<close>

text \<open>
  How an iteration ends: the loop goes on, the thread leaves its loop and exits
  (\<open>pthread_exit\<close>), or \<open>CHK\<close> stops the process.
\<close>

datatype status = Continue | Exit_thread | Abort_process

text \<open>
  Modelled from the spec: the macro \<open>CHK\<close> comes from error_checks.h, which is not part of
  the sources. The spec (4.7, 7) makes a failed clock sleep fatal: on a nonzero result
  \<open>CHK\<close> ends the process. What it does on the way (a report, the exit code) is the one
  event \<open>Chk_exit\<close>; on the result 0 it does nothing.
\<close>

definition CHK :: "int \<Rightarrow> event list" where
  "CHK rc = (if rc = 0 then [] else [Chk_exit])"

text \<open>
  Every thread function has the shape
  \<open>while (!is_close_pressed()) { body; incr_timespec(&next_time, &period);
  CHK(clock_nanosleep(CLOCK_MONOTONIC, TIMER_ABSTIME, &next_time, NULL)); }\<close>.
  An iteration tests the flag, runs the body (given by its result: the new locals and the
  events) and sleeps. The globals after it are the globals before it with the assignments of
  the events applied in order.

  The call of \<open>clock_gettime\<close> before the loop belongs to no iteration.
\<close>

definition iteration ::
  "nat \<Rightarrow> env \<Rightarrow> shared \<Rightarrow> 'l \<Rightarrow> ('l \<times> event list) option
     \<Rightarrow> (status \<times> 'l \<times> shared \<times> event list) option" where
  "iteration period e s l body =
     (if fst (is_close_pressed s) then Some (Exit_thread, l, s, snd (is_close_pressed s))
      else case body of
             None \<Rightarrow> None
           | Some (l', tr) \<Rightarrow>
               (let evs = snd (is_close_pressed s) @ tr @ [Clock_nanosleep period]
                          @ CHK (sleep_rc e)
                in Some (if sleep_rc e = 0 then Continue else Abort_process,
                         l', run_events evs s, evs)))"

definition rotation_motor_controller ::
  "env \<Rightarrow> actions_rotation \<Rightarrow> shared
     \<Rightarrow> (status \<times> actions_rotation \<times> shared \<times> event list) option" where
  "rotation_motor_controller e rotation_actual s =
     iteration MOTOR_PERIOD e s rotation_actual (rotation_motor_controller_body e rotation_actual s)"

definition elevation_motor_controller ::
  "env \<Rightarrow> actions_elevation \<Rightarrow> shared
     \<Rightarrow> (status \<times> actions_elevation \<times> shared \<times> event list) option" where
  "elevation_motor_controller e elevation_actual s =
     iteration MOTOR_PERIOD e s elevation_actual
       (elevation_motor_controller_body e elevation_actual s)"

definition claw_motor_controller ::
  "env \<Rightarrow> bool \<Rightarrow> shared \<Rightarrow> (status \<times> bool \<times> shared \<times> event list) option" where
  "claw_motor_controller e claw_open s =
     iteration MOTOR_PERIOD e s claw_open (claw_motor_controller_body e claw_open s)"

definition buttons_controller ::
  "env \<Rightarrow> unit \<Rightarrow> shared \<Rightarrow> (status \<times> unit \<times> shared \<times> event list) option" where
  "buttons_controller e u s = iteration BUTTON_PERIOD e s u (Some (u, buttons_controller_body e))"

definition color_sensor_controller ::
  "env \<Rightarrow> unit \<Rightarrow> shared \<Rightarrow> (status \<times> unit \<times> shared \<times> event list) option" where
  "color_sensor_controller e u s =
     iteration COLOR_PERIOD e s u (Some (u, color_sensor_controller_body e))"

definition touch_sensor_controller ::
  "env \<Rightarrow> unit \<Rightarrow> shared \<Rightarrow> (status \<times> unit \<times> shared \<times> event list) option" where
  "touch_sensor_controller e u s =
     iteration TOUCH_PERIOD e s u (Some (u, touch_sensor_controller_body e))"

definition leds_controller ::
  "env \<Rightarrow> bool \<Rightarrow> shared \<Rightarrow> (status \<times> bool \<times> shared \<times> event list) option" where
  "leds_controller e previous s =
     iteration LED_PERIOD e s previous (Some (leds_controller_body previous s))"

definition reporter ::
  "int \<Rightarrow> int \<Rightarrow> env \<Rightarrow> unit \<Rightarrow> shared \<Rightarrow> (status \<times> unit \<times> shared \<times> event list) option" where
  "reporter EV3_X_LCD EV3_Y_LCD e u s =
     iteration REPORTER_PERIOD e s u (Some (u, reporter_body EV3_X_LCD EV3_Y_LCD e s))"

section \<open>Runs of one thread and of the whole program\<close>

text \<open>
  A run of one thread: its iterations one after the other, each with the device values it
  reads and the globals it finds (the other threads may have changed them in between).
  The result is the final value of the locals and the events of each iteration; the run
  ends early when the thread leaves its loop.
\<close>

fun thread_run ::
  "(env \<Rightarrow> 'l \<Rightarrow> shared \<Rightarrow> (status \<times> 'l \<times> shared \<times> event list) option)
     \<Rightarrow> 'l \<Rightarrow> (env \<times> shared) list \<Rightarrow> ('l \<times> event list list) option" where
  "thread_run it l [] = Some (l, [])"
| "thread_run it l ((e, s) # obs) =
     (case it e l s of
        None \<Rightarrow> None
      | Some (st, l', s', tr) \<Rightarrow>
          if st = Continue then
            (case thread_run it l' obs of
               None \<Rightarrow> None
             | Some (lf, trs) \<Rightarrow> Some (lf, tr # trs))
          else Some (l', [tr]))"

text \<open>The eight periodic threads created by \<open>main\<close>, and their local variables.\<close>

datatype activity =
  Buttons | Color | Touch | Rotation | Elevation | Claw | Leds | Lcd_reporter

record locals =
  rotation_actual :: actions_rotation
  elevation_actual :: actions_elevation
  claw_open :: bool
  previous :: bool

definition activity_iteration ::
  "int \<Rightarrow> int \<Rightarrow> activity \<Rightarrow> env \<Rightarrow> locals \<Rightarrow> shared
     \<Rightarrow> (status \<times> locals \<times> shared \<times> event list) option" where
  "activity_iteration EV3_X_LCD EV3_Y_LCD a e l s =
     (case a of
        Buttons \<Rightarrow>
          map_option (\<lambda>(st, u, s', tr). (st, l, s', tr)) (buttons_controller e () s)
      | Color \<Rightarrow>
          map_option (\<lambda>(st, u, s', tr). (st, l, s', tr)) (color_sensor_controller e () s)
      | Touch \<Rightarrow>
          map_option (\<lambda>(st, u, s', tr). (st, l, s', tr)) (touch_sensor_controller e () s)
      | Rotation \<Rightarrow>
          map_option (\<lambda>(st, x, s', tr). (st, l\<lparr>rotation_actual := x\<rparr>, s', tr))
            (rotation_motor_controller e (rotation_actual l) s)
      | Elevation \<Rightarrow>
          map_option (\<lambda>(st, x, s', tr). (st, l\<lparr>elevation_actual := x\<rparr>, s', tr))
            (elevation_motor_controller e (elevation_actual l) s)
      | Claw \<Rightarrow>
          map_option (\<lambda>(st, x, s', tr). (st, l\<lparr>claw_open := x\<rparr>, s', tr))
            (claw_motor_controller e (claw_open l) s)
      | Leds \<Rightarrow>
          map_option (\<lambda>(st, x, s', tr). (st, l\<lparr>previous := x\<rparr>, s', tr))
            (leds_controller e (previous l) s)
      | Lcd_reporter \<Rightarrow>
          map_option (\<lambda>(st, u, s', tr). (st, l, s', tr))
            (reporter EV3_X_LCD EV3_Y_LCD e () s))"

text \<open>
  The program while the eight threads run: the globals, the locals, how far each thread
  is, whether \<open>CHK\<close> has stopped the process, and the events so far with their thread.
\<close>

record system =
  globals :: shared
  locs :: locals
  state_of :: "activity \<Rightarrow> status"
  aborted :: bool
  log :: "(activity \<times> event list) list"

text \<open>
  One step lets one thread run one iteration of its loop. A thread that has left its loop
  does nothing more, and nothing runs once the process has been stopped. The threads
  alternate between iterations here; what happens when another thread runs inside a
  recovery is read from the events of the two bodies.
\<close>

definition step :: "int \<Rightarrow> int \<Rightarrow> activity \<Rightarrow> env \<Rightarrow> system \<Rightarrow> system option" where
  "step EV3_X_LCD EV3_Y_LCD a e sys =
     (if aborted sys \<or> state_of sys a \<noteq> Continue then Some sys
      else case activity_iteration EV3_X_LCD EV3_Y_LCD a e (locs sys) (globals sys) of
             None \<Rightarrow> None
           | Some (st, l', s', tr) \<Rightarrow>
               Some (sys\<lparr>globals := s', locs := l',
                         state_of := (state_of sys)(a := st),
                         aborted := (st = Abort_process),
                         log := log sys @ [(a, tr)]\<rparr>))"

fun system_run :: "int \<Rightarrow> int \<Rightarrow> (activity \<times> env) list \<Rightarrow> system \<Rightarrow> system option" where
  "system_run X Y [] sys = Some sys"
| "system_run X Y ((a, e) # sch) sys =
     (case step X Y a e sys of
        None \<Rightarrow> None
      | Some sys' \<Rightarrow> system_run X Y sch sys')"

text \<open>
  The globals when the threads are created: \<open>main\<close> assigns the three intent fields and
  \<open>claw_used.status\<close>; the other flags are zero-initialised globals.
\<close>

definition initial_shared :: shared where
  "initial_shared =
     \<lparr>rotation = ROTATE_STOP, elevation = ELEVATE_STOP, claw = INACTIVE,
      top_limit_reached = False, clockwise_limit_reached = False, close = False,
      correction_in_progress = False, claw_used_status = False\<rparr>"

definition initial_locals :: locals where
  "initial_locals =
     \<lparr>rotation_actual = ROTATE_STOP, elevation_actual = ELEVATE_STOP,
      claw_open = True, previous = False\<rparr>"

definition initial_system :: system where
  "initial_system =
     \<lparr>globals = initial_shared, locs = initial_locals, state_of = (\<lambda>a. Continue),
      aborted = False, log = []\<rparr>"

section \<open>Being inside a recovery move\<close>

text \<open>
  A motor is inside a recovery move from the positioned command (\<open>run-to-rel-pos\<close> or
  \<open>run-to-abs-pos\<close>) until the \<open>run-direct\<close> command that cuts its power. \<open>in_recovery m evs\<close>
  says whether that is the case after the events \<open>evs\<close>.
\<close>

definition recovery_step :: "motor \<Rightarrow> bool \<Rightarrow> event \<Rightarrow> bool" where
  "recovery_step m b ev =
     (if ev = Motor m (Command RUN_REL_POS) \<or> ev = Motor m (Command RUN_ABS_POS) then True
      else if ev = Motor m (Command RUN_DIRECT) then False
      else b)"

definition in_recovery :: "motor \<Rightarrow> event list \<Rightarrow> bool" where
  "in_recovery m evs = foldl (recovery_step m) False evs"

text \<open>
  \<open>flag_covers m r s evs\<close>: starting inside a recovery move of \<open>m\<close> or not (\<open>r\<close>) and
  from the globals \<open>s\<close>, at every point of the events \<open>evs\<close> at which \<open>m\<close> is inside a
  recovery move, \<open>correction_in_progress\<close> is true.
\<close>

fun flag_covers :: "motor \<Rightarrow> bool \<Rightarrow> shared \<Rightarrow> event list \<Rightarrow> bool" where
  "flag_covers m r s [] = (r \<longrightarrow> correction_in_progress s)"
| "flag_covers m r s (ev # evs) =
     ((r \<longrightarrow> correction_in_progress s)
      \<and> flag_covers m (recovery_step m r ev) (apply_event ev s) evs)"

section \<open>Mutual exclusion on the intent\<close>

text \<open>The assignments to the three fields of \<open>new_motors_status\<close>.\<close>

fun is_intent_write :: "event \<Rightarrow> bool" where
  "is_intent_write (Write (W_rotation a)) = True"
| "is_intent_write (Write (W_elevation a)) = True"
| "is_intent_write (Write (W_claw a)) = True"
| "is_intent_write _ = False"

text \<open>
  \<open>unprotected held evs\<close> collects the intent assignments of \<open>evs\<close> made while the thread
  does not hold \<open>new_motors_status.mutex\<close>; \<open>held\<close> says whether it holds it at the start.
\<close>

fun unprotected :: "bool \<Rightarrow> event list \<Rightarrow> event list" where
  "unprotected held [] = []"
| "unprotected held (ev # evs) =
     (if ev = Mutex_lock Motors_mutex then unprotected True evs
      else if ev = Mutex_unlock Motors_mutex then unprotected False evs
      else if is_intent_write ev \<and> \<not> held then ev # unprotected held evs
      else unprotected held evs)"

section \<open>Startup: calibration and \<open>main\<close> up to the creation of the threads\<close>

text \<open>
  What a calibration thread reads: \<open>sensor_vals k\<close> is the \<open>k\<close>-th sensor reading,
  \<open>states k\<close> the \<open>k\<close>-th motor state, \<open>sleep_rcs k\<close> the result of its \<open>k\<close>-th
  \<open>clock_nanosleep\<close>, \<open>max_speed\<close> the field of the motor.
\<close>

record init_env =
  sensor_vals :: "nat \<Rightarrow> int"
  states :: "nat \<Rightarrow> int"
  sleep_rcs :: "nat \<Rightarrow> int"
  max_speed :: int

text \<open>
  The do-while loops of the calibration threads take a reading (or none), sleep under
  \<open>CHK\<close>, and go on while the reading asks for it. The result \<open>(ok, k)\<close> says that the
  loop stopped in its iteration \<open>k\<close> (from 0), by its condition (\<open>ok\<close>) or by a failed sleep.
\<close>

partial_function (option) sample_until ::
  "(nat \<Rightarrow> int) \<Rightarrow> (nat \<Rightarrow> int) \<Rightarrow> (int \<Rightarrow> bool) \<Rightarrow> nat \<Rightarrow> (bool \<times> nat) option" where
  "sample_until vals rcs again k =
     (if rcs k \<noteq> 0 then Some (False, k)
      else if again (vals k) then sample_until vals rcs again (Suc k)
      else Some (True, k))"

text \<open>Events of a loop that reads and then sleeps, stopped in iteration \<open>k\<close>.\<close>

definition read_sleep_trace :: "event \<Rightarrow> nat \<Rightarrow> event list" where
  "read_sleep_trace rd k = concat (replicate (Suc k) [rd, Clock_nanosleep MOTOR_PERIOD])"

text \<open>
  Events of a loop that sleeps and then reads the motor state in its condition, stopped in
  iteration \<open>k\<close>; after a failed sleep the last reading does not take place.
\<close>

definition sleep_state_trace :: "motor \<Rightarrow> bool \<Rightarrow> nat \<Rightarrow> event list" where
  "sleep_state_trace m ok k =
     concat (replicate k [Clock_nanosleep MOTOR_PERIOD, Motor m Motor_state])
     @ [Clock_nanosleep MOTOR_PERIOD] @ (if ok then [Motor m Motor_state] else [])"

definition rotation_motor_initializer :: "init_env \<Rightarrow> (status \<times> event list) option" where
  "rotation_motor_initializer ie =
     (case sample_until (sensor_vals ie) (sleep_rcs ie) (\<lambda>v. v = TOUCH_SENSOR_INACTIVE) 0 of
        None \<Rightarrow> None
      | Some (ok1, k1) \<Rightarrow>
          (let t1 = [Clock_gettime,
                     Motor Rotation_motor (Stop_action HOLD),
                     Motor Rotation_motor (Set_duty_cycle_sp ROTATION_POWER),
                     Motor Rotation_motor (Command RUN_DIRECT)]
                    @ read_sleep_trace (Sensor Touch_sensor Update_sensor_val) k1
           in if \<not> ok1 then Some (Abort_process, t1 @ [Chk_exit])
              else
                (case sample_until (states ie) (\<lambda>j. sleep_rcs ie (Suc k1 + j))
                        (\<lambda>v. v AND MOTOR_RUNNING \<noteq> 0) 0 of
                   None \<Rightarrow> None
                 | Some (ok2, k2) \<Rightarrow>
                     (let t2 = t1
                            @ [Motor Rotation_motor
                                 (Set_speed_sp ((STEP_ROTATION_SPEED * max_speed ie) sdiv 100)),
                               Motor Rotation_motor (Set_position_sp ROTATION_INIT_UNITS),
                               Motor Rotation_motor (Command RUN_REL_POS),
                               Usleep SUSPENSION_TIME,
                               Clock_gettime]
                            @ sleep_state_trace Rotation_motor ok2 k2
                      in if \<not> ok2 then Some (Abort_process, t2 @ [Chk_exit])
                         else Some (Exit_thread,
                                t2 @ [Motor Rotation_motor (Set_duty_cycle_sp 0),
                                      Motor Rotation_motor (Command RUN_DIRECT),
                                      Motor Rotation_motor (Set_position 0)])))))"

definition elevation_motor_initializer :: "init_env \<Rightarrow> (status \<times> event list) option" where
  "elevation_motor_initializer ie =
     (case sample_until (sensor_vals ie) (sleep_rcs ie) (\<lambda>v. v < REFLECTION_LIMIT) 0 of
        None \<Rightarrow> None
      | Some (ok1, k1) \<Rightarrow>
          (let t1 = [Clock_gettime,
                     Motor Elevation_motor (Stop_action HOLD),
                     Motor Elevation_motor (Set_duty_cycle_sp ELEVATION_UP_POWER),
                     Motor Elevation_motor (Command RUN_DIRECT)]
                    @ read_sleep_trace (Sensor Color_sensor Update_sensor_val) k1
           in if \<not> ok1 then Some (Abort_process, t1 @ [Chk_exit])
              else
                (case sample_until (states ie) (\<lambda>j. sleep_rcs ie (Suc k1 + j))
                        (\<lambda>v. v AND MOTOR_RUNNING \<noteq> 0) 0 of
                   None \<Rightarrow> None
                 | Some (ok2, k2) \<Rightarrow>
                     (let t2 = t1
                            @ [Motor Elevation_motor
                                 (Set_speed_sp ((STEP_ELEVATION_SPEED * max_speed ie) sdiv 100)),
                               Motor Elevation_motor (Set_position_sp ELEVATION_INIT_UNITS),
                               Motor Elevation_motor (Command RUN_REL_POS),
                               Usleep SUSPENSION_TIME,
                               Clock_gettime]
                            @ sleep_state_trace Elevation_motor ok2 k2
                      in if \<not> ok2 then Some (Abort_process, t2 @ [Chk_exit])
                         else Some (Exit_thread,
                                t2 @ [Motor Elevation_motor (Set_duty_cycle_sp 0),
                                      Motor Elevation_motor (Command RUN_DIRECT),
                                      Motor Elevation_motor (Set_position 0)])))))"

text \<open>
  The claw is closed until its state is \<open>MOTOR_LIMIT\<close>; both loops read the motor state, so
  the second one goes on with the readings after those of the first.
\<close>

definition claw_motor_initializer :: "init_env \<Rightarrow> (status \<times> event list) option" where
  "claw_motor_initializer ie =
     (case sample_until (states ie) (sleep_rcs ie) (\<lambda>v. v \<noteq> MOTOR_LIMIT) 0 of
        None \<Rightarrow> None
      | Some (ok1, k1) \<Rightarrow>
          (let t1 = [Clock_gettime,
                     Motor Claw_motor (Stop_action HOLD),
                     Motor Claw_motor (Set_duty_cycle_sp (- CLAW_POWER)),
                     Motor Claw_motor (Command RUN_DIRECT)]
                    @ read_sleep_trace (Motor Claw_motor Motor_state) k1
           in if \<not> ok1 then Some (Abort_process, t1 @ [Chk_exit])
              else
                (case sample_until (\<lambda>j. states ie (Suc k1 + j)) (\<lambda>j. sleep_rcs ie (Suc k1 + j))
                        (\<lambda>v. v AND MOTOR_RUNNING \<noteq> 0) 0 of
                   None \<Rightarrow> None
                 | Some (ok2, k2) \<Rightarrow>
                     (let t2 = t1
                            @ [Motor Claw_motor
                                 (Set_speed_sp ((STEP_CLAW_SPEED * max_speed ie) sdiv 100)),
                               Motor Claw_motor (Set_position_sp CLAW_INIT_UNITS),
                               Motor Claw_motor (Command RUN_REL_POS),
                               Usleep SUSPENSION_TIME]
                            @ sleep_state_trace Claw_motor ok2 k2
                      in if \<not> ok2 then Some (Abort_process, t2 @ [Chk_exit])
                         else Some (Exit_thread,
                                t2 @ [Motor Claw_motor (Set_duty_cycle_sp 0),
                                      Motor Claw_motor (Command RUN_DIRECT),
                                      Motor Claw_motor (Set_position 0)])))))"

text \<open>
  What \<open>main\<close> gets from the device layer while it starts: whether each load, search and
  open returns a handle, and the readings of the three calibration threads. The searches
  of the elevation and claw motors have no field: after them \<open>main\<close> tests
  \<open>rotation_motor\<close> again, which is known not to be \<open>NULL\<close> there.
\<close>

record startup_env =
  motors_loaded :: bool
  rotation_found :: bool
  rotation_opened :: bool
  elevation_opened :: bool
  claw_opened :: bool
  sensors_loaded :: bool
  touch_found :: bool
  touch_opened :: bool
  color_found :: bool
  color_opened :: bool
  rotation_init :: init_env
  elevation_init :: init_env
  claw_init :: init_env

datatype startup_result = EXIT_FAILURE | CHK_abort | Threads_created

text \<open>
  \<open>main\<close> from its first statement to the creation of the eight periodic threads. The
  calls of the thread library (attributes, mutexes, create and join) are taken to succeed
  and leave no event. The three calibration threads work on different devices; their events
  are listed one thread after the other. Messages are given without their newline.
\<close>

definition main_startup :: "startup_env \<Rightarrow> (startup_result \<times> event list) option" where
  "main_startup se =
     (if \<not> motors_loaded se then
        Some (EXIT_FAILURE, [Load_motors, Printf ''Error on ev3_load_motors''])
      else if \<not> rotation_found se then
        Some (EXIT_FAILURE,
          [Load_motors, Motor Rotation_motor Search_motor,
           Printf ''Error on ev3_search_motor_by_port with rotation motor.''])
      else let t1 = [Load_motors, Motor Rotation_motor Search_motor,
                     Motor Rotation_motor Reset_motor, Motor Rotation_motor Open_motor]
      in if \<not> rotation_opened se then
        Some (EXIT_FAILURE, t1 @ [Printf ''Error on ev3_open_sensor with rotation motor.''])
      else let t2 = t1 @ [Motor Elevation_motor Search_motor,
                          Motor Elevation_motor Reset_motor, Motor Elevation_motor Open_motor]
      in if \<not> elevation_opened se then
        Some (EXIT_FAILURE, t2 @ [Printf ''Error on ev3_open_sensor with elevation motor.''])
      else let t3 = t2 @ [Motor Claw_motor Search_motor,
                          Motor Claw_motor Reset_motor, Motor Claw_motor Open_motor]
      in if \<not> claw_opened se then
        Some (EXIT_FAILURE, t3 @ [Printf ''Error on ev3_open_sensor with claw motor.''])
      else if \<not> sensors_loaded se then
        Some (EXIT_FAILURE, t3 @ [Load_sensors, Printf ''Error on ev3_load_sensors''])
      else let t4 = t3 @ [Load_sensors, Sensor Touch_sensor Search_sensor]
      in if \<not> touch_found se then
        Some (EXIT_FAILURE,
          t4 @ [Printf ''Error with touch sensor on ev3_search_sensor_by_port.''])
      else if \<not> touch_opened se then
        Some (EXIT_FAILURE,
          t4 @ [Sensor Touch_sensor Open_sensor,
                Printf ''Error on ev3_open_sensor with touch sensor.''])
      else let t5 = t4 @ [Sensor Touch_sensor Open_sensor, Sensor Color_sensor Search_sensor]
      in if \<not> color_found se then
        Some (EXIT_FAILURE,
          t5 @ [Printf ''Error with color sensor on ev3_search_sensor_by_port.''])
      else if \<not> color_opened se then
        Some (EXIT_FAILURE,
          t5 @ [Sensor Color_sensor Open_sensor,
                Printf ''Error on ev3_open_sensor with color sensor.''])
      else let t6 = t5 @ [Sensor Color_sensor Open_sensor,
                          Sensor Color_sensor (Mode_sensor COL_REFLECT),
                          Init_button, Init_led, Lcd Init_lcd]
      in case rotation_motor_initializer (rotation_init se) of
           None \<Rightarrow> None
         | Some (st_r, tr_r) \<Rightarrow>
             if st_r = Abort_process then Some (CHK_abort, t6 @ tr_r)
             else
               (case elevation_motor_initializer (elevation_init se) of
                  None \<Rightarrow> None
                | Some (st_e, tr_e) \<Rightarrow>
                    if st_e = Abort_process then Some (CHK_abort, t6 @ tr_r @ tr_e)
                    else
                      (case claw_motor_initializer (claw_init se) of
                         None \<Rightarrow> None
                       | Some (st_c, tr_c) \<Rightarrow>
                           if st_c = Abort_process
                           then Some (CHK_abort, t6 @ tr_r @ tr_e @ tr_c)
                           else Some (Threads_created, t6 @ tr_r @ tr_e @ tr_c))))"

section \<open>The brightness of the LEDs\<close>

text \<open>The brightness of each colour channel of each LED.\<close>

type_synonym leds = "led \<Rightarrow> led_color \<Rightarrow> int"

text \<open>
  Modelled from the spec: the LED operations \<open>ev3_init_led\<close> and \<open>ev3_set_led\<close> belong to
  ev3c, which is not part of the sources. By the device contract (6.2, 6.3) each LED has
  independent red and green intensities and \<open>set(side, color_channel, intensity)\<close> writes
  one of them. What \<open>init\<close> does to the intensities is not said: it is the parameter
  \<open>init_led\<close>. No other event touches a LED.

  \<open>leds_after init_led evs b\<close> is the brightness after the events \<open>evs\<close>, from \<open>b\<close>.
\<close>

fun leds_after :: "(leds \<Rightarrow> leds) \<Rightarrow> event list \<Rightarrow> leds \<Rightarrow> leds" where
  "leds_after init_led [] b = b"
| "leds_after init_led (Set_led l c v # evs) b =
     leds_after init_led evs (b(l := (b l)(c := v)))"
| "leds_after init_led (Init_led # evs) b = leds_after init_led evs (init_led b)"
| "leds_after init_led (ev # evs) b = leds_after init_led evs b"

section \<open>Reading a list of events\<close>

text \<open>The assignments to global fields among the events, in order.\<close>

fun writes :: "event list \<Rightarrow> store list" where
  "writes [] = []"
| "writes (Write w # evs) = w # writes evs"
| "writes (ev # evs) = writes evs"

text \<open>
  The motor calls that command a motor, in order: every call of the motor interface but
  the two that only read (\<open>ev3_get_position\<close> and \<open>ev3_motor_state\<close>).
\<close>

fun commands_motor :: "motor_op \<Rightarrow> bool" where
  "commands_motor Get_position = False"
| "commands_motor Motor_state = False"
| "commands_motor mop = True"

fun motor_commands :: "event list \<Rightarrow> (motor \<times> motor_op) list" where
  "motor_commands [] = []"
| "motor_commands (Motor m mop # evs) =
     (if commands_motor mop then (m, mop) # motor_commands evs else motor_commands evs)"
| "motor_commands (ev # evs) = motor_commands evs"

section \<open>Example inputs\<close>

text \<open>A period in which no key is pressed, every reading is 0 and the sleep succeeds.\<close>

definition quiet_env :: env where
  "quiet_env =
     \<lparr>pressed = (\<lambda>b. False), sensor_val = 0, position = 0, motor_states = (\<lambda>k. 0),
      dev_rc = (\<lambda>k. 0), sleep_rc = 0, tm_hour = 0, tm_min = 0, tm_sec = 0\<rparr>"

text \<open>The intents published while one key is held.\<close>

definition left_held :: shared where
  "left_held = initial_shared\<lparr>rotation := ROTATE_LEFT\<rparr>"

definition up_held :: shared where
  "up_held = initial_shared\<lparr>elevation := RISE\<rparr>"

definition center_held :: shared where
  "center_held = initial_shared\<lparr>claw := ACTIVE\<rparr>"

text \<open>The events of the first iteration of each motor controller under these intents.\<close>

definition left_trace :: "event list" where
  "left_trace =
     [Mutex_lock Close_mutex, Mutex_unlock Close_mutex,
      Mutex_lock Motors_mutex, Mutex_unlock Motors_mutex,
      Mutex_lock Clockwise_mutex, Mutex_unlock Clockwise_mutex,
      Motor Rotation_motor Get_position,
      Motor Rotation_motor (Set_duty_cycle_sp (- 30)),
      Clock_nanosleep MOTOR_PERIOD]"

definition up_trace :: "event list" where
  "up_trace =
     [Mutex_lock Close_mutex, Mutex_unlock Close_mutex,
      Mutex_lock Motors_mutex, Mutex_unlock Motors_mutex,
      Mutex_lock Top_mutex, Mutex_unlock Top_mutex,
      Motor Elevation_motor Get_position,
      Motor Elevation_motor (Set_duty_cycle_sp (- 30)),
      Clock_nanosleep MOTOR_PERIOD]"

definition grip_trace :: "event list" where
  "grip_trace =
     [Mutex_lock Close_mutex, Mutex_unlock Close_mutex,
      Mutex_lock Motors_mutex, Mutex_unlock Motors_mutex,
      Motor Claw_motor (Set_duty_cycle_sp (- 40)),
      Motor Claw_motor (Command RUN_DIRECT),
      Usleep CLAW_CLOSE_TIME,
      Motor Claw_motor (Set_duty_cycle_sp 0),
      Mutex_lock Claw_used_mutex, Write (W_claw_used_status True), Mutex_unlock Claw_used_mutex,
      Mutex_lock Motors_mutex, Write (W_claw INACTIVE), Mutex_unlock Motors_mutex,
      Clock_nanosleep MOTOR_PERIOD]"

text \<open>
  Both sensor limits are flagged while RIGHT and UP are held, and readings under which the
  soft limit of an axis holds as well and its motor is still running at the first two polls.
\<close>

definition both_limits :: shared where
  "both_limits =
     initial_shared\<lparr>rotation := ROTATE_RIGHT, elevation := RISE,
                    top_limit_reached := True, clockwise_limit_reached := True\<rparr>"

definition slow_left_env :: env where
  "slow_left_env = quiet_env\<lparr>position := - 500, motor_states := (\<lambda>k. if k < 2 then 1 else 0)\<rparr>"

definition slow_down_env :: env where
  "slow_down_env = quiet_env\<lparr>position := 500, motor_states := (\<lambda>k. if k < 2 then 1 else 0)\<rparr>"

definition rotation_recovery_trace :: "event list" where
  "rotation_recovery_trace =
     [Mutex_lock Close_mutex, Mutex_unlock Close_mutex,
      Mutex_lock Motors_mutex, Mutex_unlock Motors_mutex,
      Mutex_lock Clockwise_mutex, Mutex_unlock Clockwise_mutex,
      Mutex_lock Correction_mutex, Write (W_correction_in_progress True),
      Mutex_unlock Correction_mutex,
      Motor Rotation_motor (Set_position_sp (- 350)),
      Motor Rotation_motor (Command RUN_REL_POS),
      Usleep SUSPENSION_TIME,
      Motor Rotation_motor Motor_state, Usleep CHECK_STATE_TIME,
      Motor Rotation_motor Motor_state, Usleep CHECK_STATE_TIME,
      Motor Rotation_motor Motor_state,
      Mutex_lock Clockwise_mutex, Write (W_clockwise_limit_reached False),
      Mutex_unlock Clockwise_mutex,
      Motor Rotation_motor (Set_duty_cycle_sp 0),
      Motor Rotation_motor (Command RUN_DIRECT),
      Mutex_lock Correction_mutex, Write (W_correction_in_progress False),
      Mutex_unlock Correction_mutex,
      Clock_nanosleep MOTOR_PERIOD]"

definition elevation_recovery_trace :: "event list" where
  "elevation_recovery_trace =
     [Mutex_lock Close_mutex, Mutex_unlock Close_mutex,
      Mutex_lock Motors_mutex, Mutex_unlock Motors_mutex,
      Mutex_lock Top_mutex, Mutex_unlock Top_mutex,
      Mutex_lock Correction_mutex, Write (W_correction_in_progress True),
      Mutex_unlock Correction_mutex,
      Motor Elevation_motor (Set_position_sp 100),
      Motor Elevation_motor (Command RUN_REL_POS),
      Usleep SUSPENSION_TIME,
      Motor Elevation_motor Motor_state, Usleep CHECK_STATE_TIME,
      Motor Elevation_motor Motor_state, Usleep CHECK_STATE_TIME,
      Motor Elevation_motor Motor_state,
      Mutex_lock Top_mutex, Write (W_top_limit_reached False),
      Mutex_unlock Top_mutex,
      Motor Elevation_motor (Set_duty_cycle_sp 0),
      Motor Elevation_motor (Command RUN_DIRECT),
      Mutex_lock Correction_mutex, Write (W_correction_in_progress False),
      Mutex_unlock Correction_mutex,
      Clock_nanosleep MOTOR_PERIOD]"

text \<open>
  The arm is beyond a soft limit while the sensor limit of the other axis is flagged, and
  the motor has stopped at the first poll.
\<close>

definition overshoot_left :: env where
  "overshoot_left = quiet_env\<lparr>position := - 500\<rparr>"

definition far_left :: shared where
  "far_left = initial_shared\<lparr>rotation := ROTATE_LEFT, top_limit_reached := True\<rparr>"

definition overshoot_down :: env where
  "overshoot_down = quiet_env\<lparr>position := 500\<rparr>"

definition far_down :: shared where
  "far_down = initial_shared\<lparr>elevation := LOWER, clockwise_limit_reached := True\<rparr>"

definition rotation_absolute_trace :: "event list" where
  "rotation_absolute_trace =
     [Mutex_lock Close_mutex, Mutex_unlock Close_mutex,
      Mutex_lock Motors_mutex, Mutex_unlock Motors_mutex,
      Mutex_lock Clockwise_mutex, Mutex_unlock Clockwise_mutex,
      Motor Rotation_motor Get_position,
      Mutex_lock Correction_mutex, Write (W_correction_in_progress True),
      Mutex_unlock Correction_mutex,
      Motor Rotation_motor (Set_position_sp 0),
      Motor Rotation_motor (Command RUN_ABS_POS),
      Usleep SUSPENSION_TIME,
      Motor Rotation_motor Motor_state,
      Motor Rotation_motor (Set_duty_cycle_sp 0),
      Motor Rotation_motor (Command RUN_DIRECT),
      Mutex_lock Correction_mutex, Write (W_correction_in_progress False),
      Mutex_unlock Correction_mutex,
      Clock_nanosleep MOTOR_PERIOD]"

definition elevation_absolute_trace :: "event list" where
  "elevation_absolute_trace =
     [Mutex_lock Close_mutex, Mutex_unlock Close_mutex,
      Mutex_lock Motors_mutex, Mutex_unlock Motors_mutex,
      Mutex_lock Top_mutex, Mutex_unlock Top_mutex,
      Motor Elevation_motor Get_position,
      Mutex_lock Correction_mutex, Write (W_correction_in_progress True),
      Mutex_unlock Correction_mutex,
      Motor Elevation_motor (Set_position_sp 0),
      Motor Elevation_motor (Command RUN_ABS_POS),
      Usleep SUSPENSION_TIME,
      Motor Elevation_motor Motor_state,
      Motor Elevation_motor (Set_duty_cycle_sp 0),
      Motor Elevation_motor (Command RUN_DIRECT),
      Mutex_lock Correction_mutex, Write (W_correction_in_progress False),
      Mutex_unlock Correction_mutex,
      Clock_nanosleep MOTOR_PERIOD]"

text \<open>The events of an iteration that finds the intent it has already applied.\<close>

definition left_idle_trace :: "event list" where
  "left_idle_trace =
     [Mutex_lock Close_mutex, Mutex_unlock Close_mutex,
      Mutex_lock Motors_mutex, Mutex_unlock Motors_mutex,
      Mutex_lock Clockwise_mutex, Mutex_unlock Clockwise_mutex,
      Motor Rotation_motor Get_position,
      Clock_nanosleep MOTOR_PERIOD]"

definition up_idle_trace :: "event list" where
  "up_idle_trace =
     [Mutex_lock Close_mutex, Mutex_unlock Close_mutex,
      Mutex_lock Motors_mutex, Mutex_unlock Motors_mutex,
      Mutex_lock Top_mutex, Mutex_unlock Top_mutex,
      Motor Elevation_motor Get_position,
      Clock_nanosleep MOTOR_PERIOD]"

text \<open>LEFT and RIGHT are pressed together with UP and CENTER.\<close>

definition chord_env :: env where
  "chord_env = quiet_env\<lparr>pressed := (\<lambda>b. b \<noteq> BUTTON_DOWN \<and> b \<noteq> BUTTON_BACK)\<rparr>"

text \<open>
  A calibration in which each sensor answers at once and the motor is seen running once.
\<close>

definition calib_env :: init_env where
  "calib_env =
     \<lparr>sensor_vals = (\<lambda>k. 30), states = (\<lambda>k. if k = 0 then 9 else 0),
      sleep_rcs = (\<lambda>k. 0), max_speed = 900\<rparr>"

definition rotation_calibration_trace :: "event list" where
  "rotation_calibration_trace =
     [Clock_gettime,
      Motor Rotation_motor (Stop_action HOLD),
      Motor Rotation_motor (Set_duty_cycle_sp 30),
      Motor Rotation_motor (Command RUN_DIRECT),
      Sensor Touch_sensor Update_sensor_val, Clock_nanosleep MOTOR_PERIOD,
      Motor Rotation_motor (Set_speed_sp 360),
      Motor Rotation_motor (Set_position_sp (- 350)),
      Motor Rotation_motor (Command RUN_REL_POS),
      Usleep SUSPENSION_TIME,
      Clock_gettime,
      Clock_nanosleep MOTOR_PERIOD, Motor Rotation_motor Motor_state,
      Clock_nanosleep MOTOR_PERIOD, Motor Rotation_motor Motor_state,
      Motor Rotation_motor (Set_duty_cycle_sp 0),
      Motor Rotation_motor (Command RUN_DIRECT),
      Motor Rotation_motor (Set_position 0)]"

text \<open>Every device call of the period returns -1 as its own result.\<close>

definition failing_env :: env where
  "failing_env = quiet_env\<lparr>dev_rc := (\<lambda>k. - 1)\<rparr>"

text \<open>The events of an iteration of the colour sampler under a reading below the limit.\<close>

definition color_quiet_trace :: "event list" where
  "color_quiet_trace =
     [Mutex_lock Close_mutex, Mutex_unlock Close_mutex,
      Sensor Color_sensor Update_sensor_val,
      Clock_nanosleep COLOR_PERIOD]"

text \<open>The program once the close flag is set, and a schedule of three iterations.\<close>

definition closed_system :: system where
  "closed_system = initial_system\<lparr>globals := initial_shared\<lparr>close := True\<rparr>\<rparr>"

definition closing_schedule :: "(activity \<times> env) list" where
  "closing_schedule = [(Rotation, quiet_env), (Leds, quiet_env), (Rotation, quiet_env)]"

text \<open>A startup in which every device is found and opened, with the calibration above.\<close>

definition elevation_calibration_trace :: "event list" where
  "elevation_calibration_trace =
     [Clock_gettime,
      Motor Elevation_motor (Stop_action HOLD),
      Motor Elevation_motor (Set_duty_cycle_sp (- 30)),
      Motor Elevation_motor (Command RUN_DIRECT),
      Sensor Color_sensor Update_sensor_val, Clock_nanosleep MOTOR_PERIOD,
      Motor Elevation_motor (Set_speed_sp 180),
      Motor Elevation_motor (Set_position_sp 100),
      Motor Elevation_motor (Command RUN_REL_POS),
      Usleep SUSPENSION_TIME,
      Clock_gettime,
      Clock_nanosleep MOTOR_PERIOD, Motor Elevation_motor Motor_state,
      Clock_nanosleep MOTOR_PERIOD, Motor Elevation_motor Motor_state,
      Motor Elevation_motor (Set_duty_cycle_sp 0),
      Motor Elevation_motor (Command RUN_DIRECT),
      Motor Elevation_motor (Set_position 0)]"

definition claw_calibration_trace :: "event list" where
  "claw_calibration_trace =
     [Clock_gettime,
      Motor Claw_motor (Stop_action HOLD),
      Motor Claw_motor (Set_duty_cycle_sp (- 40)),
      Motor Claw_motor (Command RUN_DIRECT),
      Motor Claw_motor Motor_state, Clock_nanosleep MOTOR_PERIOD,
      Motor Claw_motor (Set_speed_sp 360),
      Motor Claw_motor (Set_position_sp 90),
      Motor Claw_motor (Command RUN_REL_POS),
      Usleep SUSPENSION_TIME,
      Clock_nanosleep MOTOR_PERIOD, Motor Claw_motor Motor_state,
      Motor Claw_motor (Set_duty_cycle_sp 0),
      Motor Claw_motor (Command RUN_DIRECT),
      Motor Claw_motor (Set_position 0)]"

definition good_startup :: startup_env where
  "good_startup =
     \<lparr>motors_loaded = True, rotation_found = True, rotation_opened = True,
      elevation_opened = True, claw_opened = True, sensors_loaded = True,
      touch_found = True, touch_opened = True, color_found = True, color_opened = True,
      rotation_init = calib_env, elevation_init = calib_env, claw_init = calib_env\<rparr>"

definition startup_trace :: "event list" where
  "startup_trace =
     [Load_motors,
      Motor Rotation_motor Search_motor, Motor Rotation_motor Reset_motor,
      Motor Rotation_motor Open_motor,
      Motor Elevation_motor Search_motor, Motor Elevation_motor Reset_motor,
      Motor Elevation_motor Open_motor,
      Motor Claw_motor Search_motor, Motor Claw_motor Reset_motor,
      Motor Claw_motor Open_motor,
      Load_sensors,
      Sensor Touch_sensor Search_sensor, Sensor Touch_sensor Open_sensor,
      Sensor Color_sensor Search_sensor, Sensor Color_sensor Open_sensor,
      Sensor Color_sensor (Mode_sensor COL_REFLECT),
      Init_button, Init_led, Lcd Init_lcd]
     @ rotation_calibration_trace @ elevation_calibration_trace @ claw_calibration_trace"

text \<open>The events of an iteration of the LED reporter that finds nothing to change.\<close>

definition leds_idle_trace :: "event list" where
  "leds_idle_trace =
     [Mutex_lock Close_mutex, Mutex_unlock Close_mutex,
      Mutex_lock Correction_mutex, Mutex_unlock Correction_mutex,
      Clock_nanosleep LED_PERIOD]"

text \<open>
  A correction is in progress, and then BACK is pressed before it ends; the events of the
  two iterations of the LED reporter that find these globals.
\<close>

definition correcting :: shared where
  "correcting = initial_shared\<lparr>correction_in_progress := True\<rparr>"

definition correcting_closed :: shared where
  "correcting_closed = initial_shared\<lparr>close := True, correction_in_progress := True\<rparr>"

definition leds_red_trace :: "event list" where
  "leds_red_trace =
     [Mutex_lock Close_mutex, Mutex_unlock Close_mutex,
      Mutex_lock Correction_mutex, Mutex_unlock Correction_mutex,
      Set_led LEFT_LED RED_LED 255, Set_led RIGHT_LED RED_LED 255,
      Set_led LEFT_LED GREEN_LED 0, Set_led RIGHT_LED GREEN_LED 0,
      Clock_nanosleep LED_PERIOD]"

definition leds_exit_trace :: "event list" where
  "leds_exit_trace = [Mutex_lock Close_mutex, Mutex_unlock Close_mutex]"

text \<open>Both LEDs green, and both LEDs red.\<close>

definition green_leds :: leds where
  "green_leds = (\<lambda>l c. if c = GREEN_LED then 255 else 0)"

definition red_leds :: leds where
  "red_leds = (\<lambda>l c. if c = RED_LED then 255 else 0)"

text \<open>
  The recovery of the rotation after the clockwise limit, cut at the first sleep of its
  polling loop: what has happened by then, and what is still to come. And the whole
  recovery of the elevation after the top limit, with a motor that has stopped at the
  first poll.
\<close>

definition rotation_entered :: "event list" where
  "rotation_entered =
     [Mutex_lock Motors_mutex, Mutex_unlock Motors_mutex,
      Mutex_lock Clockwise_mutex, Mutex_unlock Clockwise_mutex,
      Mutex_lock Correction_mutex, Write (W_correction_in_progress True),
      Mutex_unlock Correction_mutex,
      Motor Rotation_motor (Set_position_sp (- 350)),
      Motor Rotation_motor (Command RUN_REL_POS),
      Usleep SUSPENSION_TIME,
      Motor Rotation_motor Motor_state, Usleep CHECK_STATE_TIME]"

definition rotation_rest :: "event list" where
  "rotation_rest =
     [Motor Rotation_motor Motor_state, Usleep CHECK_STATE_TIME,
      Motor Rotation_motor Motor_state,
      Mutex_lock Clockwise_mutex, Write (W_clockwise_limit_reached False),
      Mutex_unlock Clockwise_mutex,
      Motor Rotation_motor (Set_duty_cycle_sp 0),
      Motor Rotation_motor (Command RUN_DIRECT),
      Mutex_lock Correction_mutex, Write (W_correction_in_progress False),
      Mutex_unlock Correction_mutex]"

definition elevation_quick :: "event list" where
  "elevation_quick =
     [Mutex_lock Motors_mutex, Mutex_unlock Motors_mutex,
      Mutex_lock Top_mutex, Mutex_unlock Top_mutex,
      Mutex_lock Correction_mutex, Write (W_correction_in_progress True),
      Mutex_unlock Correction_mutex,
      Motor Elevation_motor (Set_position_sp 100),
      Motor Elevation_motor (Command RUN_REL_POS),
      Usleep SUSPENSION_TIME,
      Motor Elevation_motor Motor_state,
      Mutex_lock Top_mutex, Write (W_top_limit_reached False),
      Mutex_unlock Top_mutex,
      Motor Elevation_motor (Set_duty_cycle_sp 0),
      Motor Elevation_motor (Command RUN_DIRECT),
      Mutex_lock Correction_mutex, Write (W_correction_in_progress False),
      Mutex_unlock Correction_mutex]"

section \<open>Auxiliary facts\<close>

lemma CHK_simps [simp]:
  "CHK 0 = []"
  "writes (CHK rc) = []"
  "motor_commands (CHK rc) = []"
  "run_events (CHK rc) s = s"
  "Printf msg \<notin> set (CHK rc)"
  "Motor m mop \<notin> set (CHK rc)"
  "Set_led l c v \<notin> set (CHK rc)"
  "Write w \<notin> set (CHK rc)"
  by (simp_all add: CHK_def)

lemma run_events_append: "run_events (xs @ ys) s = run_events ys (run_events xs s)"
  by (induction xs arbitrary: s) simp_all

lemma set_wait_trace: "set (wait_trace m n) \<subseteq> {Motor m Motor_state, Usleep CHECK_STATE_TIME}"
  by (induction n) (auto simp: wait_trace_def)

lemma wait_trace_mem:
  "x \<in> set (wait_trace m n) \<Longrightarrow> x = Motor m Motor_state \<or> x = Usleep CHECK_STATE_TIME"
  using set_wait_trace [of m n] by auto

lemma wait_trace_no_write: "Write w \<notin> set (wait_trace m n)"
  using set_wait_trace [of m n] by auto

lemma run_events_no_write:
  assumes "\<And>w. Write w \<notin> set evs"
  shows "run_events evs s = s"
  using assms
proof (induction evs arbitrary: s)
  case Nil
  then show ?case by simp
next
  case (Cons ev evs)
  have "apply_event ev s = s"
    using Cons.prems by (cases ev) auto
  then show ?case using Cons by simp
qed

lemma run_events_wait_trace: "run_events (wait_trace m n) s = s"
  by (rule run_events_no_write) (rule wait_trace_no_write)

text \<open>The waiting loop ends at the first reading without the RUNNING bit.\<close>

lemma wait_motor_stop_first:
  assumes "k \<le> n" "st n AND MOTOR_RUNNING = 0"
    "\<And>j. k \<le> j \<Longrightarrow> j < n \<Longrightarrow> st j AND MOTOR_RUNNING \<noteq> 0"
  shows "wait_motor_stop st k = Some n"
  using assms
proof (induction "n - k" arbitrary: k)
  case 0
  then have "k = n" by simp
  then show ?case using 0 by (subst wait_motor_stop.simps) simp
next
  case (Suc d)
  then have less: "k < n" by simp
  then have "st k AND MOTOR_RUNNING \<noteq> 0" using Suc.prems by simp
  moreover have "wait_motor_stop st (Suc k) = Some n"
    using Suc less by (intro Suc.hyps) auto
  ultimately show ?case by (subst wait_motor_stop.simps) simp
qed

lemma wait_motor_stop_Some:
  assumes "wait_motor_stop st k = Some n"
  shows "k \<le> n \<and> st n AND MOTOR_RUNNING = 0"
proof (rule wait_motor_stop.raw_induct
    [where P = "\<lambda>st k n. k \<le> n \<and> st n AND MOTOR_RUNNING = 0", OF _ assms])
  fix f :: "(nat \<Rightarrow> int) \<Rightarrow> nat \<Rightarrow> nat option" and st k n
  assume ih: "\<And>st k n. f st k = Some n \<Longrightarrow> k \<le> n \<and> st n AND MOTOR_RUNNING = 0"
    and eq: "(if st k AND MOTOR_RUNNING \<noteq> 0 then f st (Suc k) else Some k) = Some n"
  show "k \<le> n \<and> st n AND MOTOR_RUNNING = 0"
  proof (cases "st k AND MOTOR_RUNNING \<noteq> 0")
    case True
    with eq have "f st (Suc k) = Some n" by simp
    from ih [OF this] show ?thesis by simp
  next
    case False
    with eq show ?thesis by simp
  qed
qed

text \<open>What a finished iteration is made of.\<close>

lemma iteration_SomeD:
  assumes "iteration p e s l body = Some (st, l', s', tr)"
  shows "(close s \<and> st = Exit_thread \<and> l' = l \<and> s' = s
            \<and> tr = [Mutex_lock Close_mutex, Mutex_unlock Close_mutex])
       \<or> (\<not> close s \<and> (\<exists>b. body = Some (l', b)
            \<and> tr = [Mutex_lock Close_mutex, Mutex_unlock Close_mutex] @ b @ [Clock_nanosleep p]
                   @ CHK (sleep_rc e)
            \<and> s' = run_events b s
            \<and> st = (if sleep_rc e = 0 then Continue else Abort_process)))"
  using assms
  by (auto simp: iteration_def is_close_pressed_def Let_def run_events_append CHK_def
      split: if_splits option.splits)

lemma wait_motor_stop_least:
  assumes "st n AND MOTOR_RUNNING = 0"
  shows "\<exists>k \<le> n. wait_motor_stop st 0 = Some k \<and> st k AND MOTOR_RUNNING = 0
           \<and> (\<forall>j < k. st j AND MOTOR_RUNNING \<noteq> 0)"
proof -
  define m where "m = (LEAST j. st j AND MOTOR_RUNNING = 0)"
  have a: "st m AND MOTOR_RUNNING = 0" unfolding m_def using assms by (rule LeastI)
  have b: "m \<le> n" unfolding m_def using assms by (rule Least_le)
  have c: "\<And>j. j < m \<Longrightarrow> st j AND MOTOR_RUNNING \<noteq> 0"
    unfolding m_def by (rule not_less_Least)
  have "wait_motor_stop st 0 = Some m"
    by (rule wait_motor_stop_first) (use a c in auto)
  with a b c show ?thesis by blast
qed

lemma iteration_Some:
  assumes "\<not> close s" "body = Some (l', b)"
  shows "iteration p e s l body =
     Some (if sleep_rc e = 0 then Continue else Abort_process, l', run_events b s,
           [Mutex_lock Close_mutex, Mutex_unlock Close_mutex] @ b @ [Clock_nanosleep p]
           @ CHK (sleep_rc e))"
  using assms
  by (simp add: iteration_def is_close_pressed_def Let_def run_events_append CHK_def)

lemma writes_append: "writes (xs @ ys) = writes xs @ writes ys"
  by (induction xs rule: writes.induct) simp_all

lemma motor_commands_append: "motor_commands (xs @ ys) = motor_commands xs @ motor_commands ys"
  by (induction xs rule: motor_commands.induct) simp_all

lemma writes_wait_trace: "writes (wait_trace m n) = []"
  by (induction n) (simp_all add: wait_trace_def)

lemma motor_commands_wait_trace: "motor_commands (wait_trace m n) = []"
  by (induction n) (simp_all add: wait_trace_def)

lemma run_events_writes: "run_events evs s = fold apply_write (writes evs) s"
  by (induction evs arbitrary: s rule: writes.induct) simp_all

text \<open>The three ways through the if-chain of a controller, by what they assign and command.\<close>

lemma rotation_body_cases:
  assumes "rotation_motor_controller_body e ra s = Some (ra', tr)"
  shows "(clockwise_limit_reached s \<and> ra' = ROTATE_STOP
           \<and> writes tr = [W_correction_in_progress True, W_clockwise_limit_reached False,
                           W_correction_in_progress False])
       \<or> (\<not> clockwise_limit_reached s \<and> position e < - 400 \<and> ra' = ROTATE_STOP
           \<and> writes tr = [W_correction_in_progress True, W_correction_in_progress False])
       \<or> (\<not> clockwise_limit_reached s \<and> \<not> position e < - 400 \<and> ra' = rotation s
           \<and> writes tr = []
           \<and> motor_commands tr =
               (if ra \<noteq> rotation s
                then [(Rotation_motor, Set_duty_cycle_sp
                        (case rotation s of ROTATE_RIGHT \<Rightarrow> 30 | ROTATE_LEFT \<Rightarrow> - 30
                         | ROTATE_STOP \<Rightarrow> 0))]
                else []))"
  using assms
  by (auto simp: rotation_motor_controller_body_def Let_def is_clockwise_limit_reached_def
      locked_write_def TOP_LEFT_POS_def ROTATION_POWER_def writes_append writes_wait_trace
      split: if_splits option.splits actions_rotation.splits)

lemma elevation_body_cases:
  assumes "elevation_motor_controller_body e ea s = Some (ea', tr)"
  shows "(top_limit_reached s \<and> ea' = ELEVATE_STOP
           \<and> writes tr = [W_correction_in_progress True, W_top_limit_reached False,
                           W_correction_in_progress False])
       \<or> (\<not> top_limit_reached s \<and> position e > 200 \<and> ea' = ELEVATE_STOP
           \<and> writes tr = [W_correction_in_progress True, W_correction_in_progress False])
       \<or> (\<not> top_limit_reached s \<and> \<not> position e > 200 \<and> ea' = elevation s
           \<and> writes tr = []
           \<and> motor_commands tr =
               (if ea \<noteq> elevation s
                then [(Elevation_motor, Set_duty_cycle_sp
                        (case elevation s of RISE \<Rightarrow> - 30 | LOWER \<Rightarrow> 20
                         | ELEVATE_STOP \<Rightarrow> 0))]
                else []))"
  using assms
  by (auto simp: elevation_motor_controller_body_def Let_def is_top_limit_reached_def
      locked_write_def TOP_BOTTOM_POS_def ELEVATION_UP_POWER_def ELEVATION_DOWN_POWER_def
      writes_append writes_wait_trace
      split: if_splits option.splits actions_elevation.splits)

lemma iteration_writes:
  assumes "iteration p e s l body = Some (st, l', s', tr)" "\<not> close s"
  shows "\<exists>b. body = Some (l', b) \<and> writes tr = writes b \<and> s' = fold apply_write (writes b) s
           \<and> motor_commands tr = motor_commands b"
  using iteration_SomeD [OF assms(1)] assms(2)
  by (auto simp: writes_append motor_commands_append run_events_writes)

text \<open>The waiting loop on the example readings.\<close>

lemma wait_slow: "wait_motor_stop (\<lambda>k. if k < 2 then 1 else 0) 0 = Some 2"
  by (rule wait_motor_stop_first) (auto simp: MOTOR_RUNNING_def)

lemma wait_quiet: "wait_motor_stop (\<lambda>k. 0) 0 = Some 0"
  by (rule wait_motor_stop_first) auto

lemma wait_trace_0: "wait_trace m 0 = [Motor m Motor_state]"
  by (simp add: wait_trace_def)

lemma wait_trace_2:
  "wait_trace m 2 =
     [Motor m Motor_state, Usleep CHECK_STATE_TIME,
      Motor m Motor_state, Usleep CHECK_STATE_TIME, Motor m Motor_state]"
  by (simp add: wait_trace_def numeral_2_eq_2)

lemma rotation_recovery_iteration:
  "rotation_motor_controller slow_left_env ROTATE_RIGHT both_limits =
     Some (Continue, ROTATE_STOP,
           both_limits\<lparr>clockwise_limit_reached := False, correction_in_progress := False\<rparr>,
           rotation_recovery_trace)"
  by (simp add: rotation_motor_controller_def iteration_def rotation_motor_controller_body_def
      is_close_pressed_def is_clockwise_limit_reached_def locked_write_def
      slow_left_env_def quiet_env_def both_limits_def initial_shared_def wait_slow wait_trace_2
      rotation_recovery_trace_def ROTATION_INIT_UNITS_def)

lemma elevation_recovery_iteration:
  "elevation_motor_controller slow_down_env RISE both_limits =
     Some (Continue, ELEVATE_STOP,
           both_limits\<lparr>top_limit_reached := False, correction_in_progress := False\<rparr>,
           elevation_recovery_trace)"
  by (simp add: elevation_motor_controller_def iteration_def elevation_motor_controller_body_def
      is_close_pressed_def is_top_limit_reached_def locked_write_def
      slow_down_env_def quiet_env_def both_limits_def initial_shared_def wait_slow wait_trace_2
      elevation_recovery_trace_def ELEVATION_INIT_UNITS_def)

lemma rotation_absolute_iteration:
  "rotation_motor_controller overshoot_left ROTATE_LEFT far_left =
     Some (Continue, ROTATE_STOP, far_left, rotation_absolute_trace)"
  by (simp add: rotation_motor_controller_def iteration_def rotation_motor_controller_body_def
      is_close_pressed_def is_clockwise_limit_reached_def locked_write_def
      overshoot_left_def quiet_env_def far_left_def initial_shared_def wait_quiet wait_trace_0
      rotation_absolute_trace_def TOP_LEFT_POS_def)

lemma elevation_absolute_iteration:
  "elevation_motor_controller overshoot_down LOWER far_down =
     Some (Continue, ELEVATE_STOP, far_down, elevation_absolute_trace)"
  by (simp add: elevation_motor_controller_def iteration_def elevation_motor_controller_body_def
      is_close_pressed_def is_top_limit_reached_def locked_write_def
      overshoot_down_def quiet_env_def far_down_def initial_shared_def wait_quiet wait_trace_0
      elevation_absolute_trace_def TOP_BOTTOM_POS_def)

text \<open>The sampling loop of the calibration, one iteration at a time.\<close>

lemma sample_until_stop:
  assumes "rcs k = 0" "\<not> again (vals k)"
  shows "sample_until vals rcs again k = Some (True, k)"
  using assms by (subst sample_until.simps) simp

lemma sample_until_go:
  assumes "rcs k = 0" "again (vals k)"
  shows "sample_until vals rcs again k = sample_until vals rcs again (Suc k)"
  using assms by (subst sample_until.simps) simp

lemma sample_until_fail:
  assumes "rcs k \<noteq> 0"
  shows "sample_until vals rcs again k = Some (False, k)"
  using assms by (subst sample_until.simps) simp

lemma sdiv_examples: "(36000::int) sdiv 100 = 360" "(18000::int) sdiv 100 = 180"
  by (simp_all add: signed_divide_int_def)

lemma rotation_calibration:
  "rotation_motor_initializer calib_env = Some (Exit_thread, rotation_calibration_trace)"
  by (simp add: rotation_motor_initializer_def calib_env_def sample_until_stop sample_until_go
     TOUCH_SENSOR_INACTIVE_def MOTOR_RUNNING_def Let_def read_sleep_trace_def
     sleep_state_trace_def rotation_calibration_trace_def ROTATION_POWER_def
     STEP_ROTATION_SPEED_def sdiv_examples ROTATION_INIT_UNITS_def)

lemma rotation_initializer_ends:
  assumes "rotation_motor_initializer ie = Some (Exit_thread, itr)"
  shows "\<exists>pre. itr = pre @ [Motor Rotation_motor (Set_duty_cycle_sp 0),
                            Motor Rotation_motor (Command RUN_DIRECT),
                            Motor Rotation_motor (Set_position 0)]"
  using assms
  by (auto simp: rotation_motor_initializer_def Let_def
      split: option.splits if_splits prod.splits)

lemma left_idle_iteration:
  "rotation_motor_controller quiet_env ROTATE_LEFT left_held
     = Some (Continue, ROTATE_LEFT, left_held, left_idle_trace)"
  by (simp add: rotation_motor_controller_def iteration_def rotation_motor_controller_body_def
      is_close_pressed_def is_clockwise_limit_reached_def quiet_env_def left_held_def
      initial_shared_def left_idle_trace_def TOP_LEFT_POS_def)

lemma up_idle_iteration:
  "elevation_motor_controller quiet_env RISE up_held
     = Some (Continue, RISE, up_held, up_idle_trace)"
  by (simp add: elevation_motor_controller_def iteration_def elevation_motor_controller_body_def
      is_close_pressed_def is_top_limit_reached_def quiet_env_def up_held_def
      initial_shared_def up_idle_trace_def TOP_BOTTOM_POS_def)

text \<open>Iterations and runs of a controller while no limit condition holds.\<close>

lemma rotation_iteration_no_limit:
  assumes "rotation_motor_controller e ra s = Some (st, ra', s', tr)"
    "\<not> clockwise_limit_reached s" "\<not> position e < - 400"
  shows "motor_commands tr =
           (if ra \<noteq> rotation s \<and> \<not> close s
            then [(Rotation_motor, Set_duty_cycle_sp
                    (case rotation s of ROTATE_RIGHT \<Rightarrow> 30 | ROTATE_LEFT \<Rightarrow> - 30
                     | ROTATE_STOP \<Rightarrow> 0))]
            else [])
         \<and> (if close s then st = Exit_thread \<and> ra' = ra else ra' = rotation s)"
proof (cases "close s")
  case True
  with iteration_SomeD [OF assms(1) [unfolded rotation_motor_controller_def]]
  show ?thesis by auto
next
  case False
  from iteration_writes [OF assms(1) [unfolded rotation_motor_controller_def] False]
  obtain b where b: "rotation_motor_controller_body e ra s = Some (ra', b)"
    "motor_commands tr = motor_commands b" by blast
  from rotation_body_cases [OF b(1)] assms(2,3) b(2) False show ?thesis by auto
qed

lemma rotation_run_settled:
  assumes "\<forall>(e, s) \<in> set obs. \<not> clockwise_limit_reached s \<and> \<not> position e < - 400 \<and> rotation s = a"
    "thread_run rotation_motor_controller a obs = Some (lf, trs)"
  shows "\<forall>tr \<in> set trs. motor_commands tr = []"
  using assms
proof (induction obs arbitrary: lf trs)
  case Nil
  then show ?case by simp
next
  case (Cons ob obs)
  obtain e s where ob: "ob = (e, s)" by (cases ob)
  from Cons.prems(2) ob obtain st ra' s' tr where it:
    "rotation_motor_controller e a s = Some (st, ra', s', tr)"
    by (auto split: option.splits)
  from Cons.prems(1) ob have c: "\<not> clockwise_limit_reached s" "\<not> position e < - 400" "rotation s = a"
    by auto
  from rotation_iteration_no_limit [OF it c(1,2)] c(3)
  have mc: "motor_commands tr = []" and ra': "ra' = a" by (auto split: if_splits)
  show ?case
  proof (cases "st = Continue")
    case True
    with Cons.prems(2) ob it ra' obtain trs' where r: "thread_run rotation_motor_controller a obs = Some (lf, trs')"
      "trs = tr # trs'" by (auto split: option.splits)
    from Cons.IH [OF _ r(1)] Cons.prems(1) have "\<forall>tr \<in> set trs'. motor_commands tr = []" by auto
    with mc r(2) show ?thesis by simp
  next
    case False
    with Cons.prems(2) ob it have "trs = [tr]" by auto
    with mc show ?thesis by simp
  qed
qed

lemma elevation_iteration_no_limit:
  assumes "elevation_motor_controller e ea s = Some (st, ea', s', tr)"
    "\<not> top_limit_reached s" "\<not> position e > 200"
  shows "motor_commands tr =
           (if ea \<noteq> elevation s \<and> \<not> close s
            then [(Elevation_motor, Set_duty_cycle_sp
                    (case elevation s of RISE \<Rightarrow> - 30 | LOWER \<Rightarrow> 20
                     | ELEVATE_STOP \<Rightarrow> 0))]
            else [])
         \<and> (if close s then st = Exit_thread \<and> ea' = ea else ea' = elevation s)"
proof (cases "close s")
  case True
  with iteration_SomeD [OF assms(1) [unfolded elevation_motor_controller_def]]
  show ?thesis by auto
next
  case False
  from iteration_writes [OF assms(1) [unfolded elevation_motor_controller_def] False]
  obtain b where b: "elevation_motor_controller_body e ea s = Some (ea', b)"
    "motor_commands tr = motor_commands b" by blast
  from elevation_body_cases [OF b(1)] assms(2,3) b(2) False show ?thesis by auto
qed

lemma elevation_run_settled:
  assumes "\<forall>(e, s) \<in> set obs. \<not> top_limit_reached s \<and> \<not> position e > 200 \<and> elevation s = a"
    "thread_run elevation_motor_controller a obs = Some (lf, trs)"
  shows "\<forall>tr \<in> set trs. motor_commands tr = []"
  using assms
proof (induction obs arbitrary: lf trs)
  case Nil
  then show ?case by simp
next
  case (Cons ob obs)
  obtain e s where ob: "ob = (e, s)" by (cases ob)
  from Cons.prems(2) ob obtain st ea' s' tr where it:
    "elevation_motor_controller e a s = Some (st, ea', s', tr)"
    by (auto split: option.splits)
  from Cons.prems(1) ob have c: "\<not> top_limit_reached s" "\<not> position e > 200" "elevation s = a"
    by auto
  from elevation_iteration_no_limit [OF it c(1,2)] c(3)
  have mc: "motor_commands tr = []" and ea': "ea' = a" by (auto split: if_splits)
  show ?case
  proof (cases "st = Continue")
    case True
    with Cons.prems(2) ob it ea' obtain trs' where r: "thread_run elevation_motor_controller a obs = Some (lf, trs')"
      "trs = tr # trs'" by (auto split: option.splits)
    from Cons.IH [OF _ r(1)] Cons.prems(1) have "\<forall>tr \<in> set trs'. motor_commands tr = []" by auto
    with mc r(2) show ?thesis by simp
  next
    case False
    with Cons.prems(2) ob it have "trs = [tr]" by auto
    with mc show ?thesis by simp
  qed
qed

lemma rotation_run_commands:
  assumes "\<forall>(e, s) \<in> set obs. \<not> clockwise_limit_reached s \<and> \<not> position e < - 400 \<and> rotation s = a"
    "thread_run rotation_motor_controller ra obs = Some (lf, trs)"
  shows "\<forall>i < length trs. motor_commands (trs ! i) =
           (if i = 0 \<and> ra \<noteq> a \<and> \<not> close (snd (hd obs))
            then [(Rotation_motor, Set_duty_cycle_sp
                    (case a of ROTATE_RIGHT \<Rightarrow> 30 | ROTATE_LEFT \<Rightarrow> - 30 | ROTATE_STOP \<Rightarrow> 0))]
            else [])"
proof (cases obs)
  case Nil
  with assms(2) show ?thesis by simp
next
  case (Cons ob obs')
  obtain e s where ob: "ob = (e, s)" by (cases ob)
  from assms(2) Cons ob obtain st ra' s' tr where it:
    "rotation_motor_controller e ra s = Some (st, ra', s', tr)"
    by (auto split: option.splits)
  from assms(1) Cons ob have c: "\<not> clockwise_limit_reached s" "\<not> position e < - 400" "rotation s = a"
    by auto
  note first = rotation_iteration_no_limit [OF it c(1,2), unfolded c(3)]
  have hd: "snd (hd obs) = s" using Cons ob by simp
  show ?thesis
  proof (cases "st = Continue")
    case True
    then have nc: "\<not> close s" using first by auto
    then have ra': "ra' = a" using first by simp
    from True assms(2) Cons ob it ra' obtain trs' where
      r: "thread_run rotation_motor_controller a obs' = Some (lf, trs')" "trs = tr # trs'"
      by (auto split: option.splits)
    have "\<forall>(e, s) \<in> set obs'. \<not> clockwise_limit_reached s \<and> \<not> position e < - 400 \<and> rotation s = a"
      using assms(1) Cons by auto
    from rotation_run_settled [OF this r(1)] have rest: "\<forall>tr \<in> set trs'. motor_commands tr = []" .
    show ?thesis
    proof (intro allI impI)
      fix i assume "i < length trs"
      show "motor_commands (trs ! i) =
           (if i = 0 \<and> ra \<noteq> a \<and> \<not> close (snd (hd obs))
            then [(Rotation_motor, Set_duty_cycle_sp
                    (case a of ROTATE_RIGHT \<Rightarrow> 30 | ROTATE_LEFT \<Rightarrow> - 30 | ROTATE_STOP \<Rightarrow> 0))]
            else [])"
      proof (cases i)
        case 0
        then show ?thesis using first r(2) hd nc by simp
      next
        case (Suc j)
        with \<open>i < length trs\<close> r(2) have "trs ! i \<in> set trs'" by simp
        with rest Suc show ?thesis by simp
      qed
    qed
  next
    case False
    with assms(2) Cons ob it have "trs = [tr]" by auto
    then show ?thesis using first hd by auto
  qed
qed

lemma elevation_run_commands:
  assumes "\<forall>(e, s) \<in> set obs. \<not> top_limit_reached s \<and> \<not> position e > 200 \<and> elevation s = a"
    "thread_run elevation_motor_controller ea obs = Some (lf, trs)"
  shows "\<forall>i < length trs. motor_commands (trs ! i) =
           (if i = 0 \<and> ea \<noteq> a \<and> \<not> close (snd (hd obs))
            then [(Elevation_motor, Set_duty_cycle_sp
                    (case a of RISE \<Rightarrow> - 30 | LOWER \<Rightarrow> 20 | ELEVATE_STOP \<Rightarrow> 0))]
            else [])"
proof (cases obs)
  case Nil
  with assms(2) show ?thesis by simp
next
  case (Cons ob obs')
  obtain e s where ob: "ob = (e, s)" by (cases ob)
  from assms(2) Cons ob obtain st ea' s' tr where it:
    "elevation_motor_controller e ea s = Some (st, ea', s', tr)"
    by (auto split: option.splits)
  from assms(1) Cons ob have c: "\<not> top_limit_reached s" "\<not> position e > 200" "elevation s = a"
    by auto
  note first = elevation_iteration_no_limit [OF it c(1,2), unfolded c(3)]
  have hd: "snd (hd obs) = s" using Cons ob by simp
  show ?thesis
  proof (cases "st = Continue")
    case True
    then have nc: "\<not> close s" using first by auto
    then have ea': "ea' = a" using first by simp
    from True assms(2) Cons ob it ea' obtain trs' where
      r: "thread_run elevation_motor_controller a obs' = Some (lf, trs')" "trs = tr # trs'"
      by (auto split: option.splits)
    have "\<forall>(e, s) \<in> set obs'. \<not> top_limit_reached s \<and> \<not> position e > 200 \<and> elevation s = a"
      using assms(1) Cons by auto
    from elevation_run_settled [OF this r(1)] have rest: "\<forall>tr \<in> set trs'. motor_commands tr = []" .
    show ?thesis
    proof (intro allI impI)
      fix i assume "i < length trs"
      show "motor_commands (trs ! i) =
           (if i = 0 \<and> ea \<noteq> a \<and> \<not> close (snd (hd obs))
            then [(Elevation_motor, Set_duty_cycle_sp
                    (case a of RISE \<Rightarrow> - 30 | LOWER \<Rightarrow> 20 | ELEVATE_STOP \<Rightarrow> 0))]
            else [])"
      proof (cases i)
        case 0
        then show ?thesis using first r(2) hd nc by simp
      next
        case (Suc j)
        with \<open>i < length trs\<close> r(2) have "trs ! i \<in> set trs'" by simp
        with rest Suc show ?thesis by simp
      qed
    qed
  next
    case False
    with assms(2) Cons ob it have "trs = [tr]" by auto
    then show ?thesis using first hd by auto
  qed
qed

text \<open>The soft-limit branch of a controller, event by event.\<close>

lemma rotation_absolute_body:
  assumes "\<not> clockwise_limit_reached s" "position e < - 400"
    "wait_motor_stop (motor_states e) 0 = Some k"
  shows "rotation_motor_controller_body e ra s = Some (ROTATE_STOP,
           [Mutex_lock Motors_mutex, Mutex_unlock Motors_mutex,
            Mutex_lock Clockwise_mutex, Mutex_unlock Clockwise_mutex,
            Motor Rotation_motor Get_position,
            Mutex_lock Correction_mutex, Write (W_correction_in_progress True),
            Mutex_unlock Correction_mutex,
            Motor Rotation_motor (Set_position_sp 0),
            Motor Rotation_motor (Command RUN_ABS_POS),
            Usleep SUSPENSION_TIME]
           @ wait_trace Rotation_motor k
           @ [Motor Rotation_motor (Set_duty_cycle_sp 0),
              Motor Rotation_motor (Command RUN_DIRECT),
              Mutex_lock Correction_mutex, Write (W_correction_in_progress False),
              Mutex_unlock Correction_mutex])"
  using assms
  by (simp add: rotation_motor_controller_body_def is_clockwise_limit_reached_def
      locked_write_def TOP_LEFT_POS_def)

lemma elevation_absolute_body:
  assumes "\<not> top_limit_reached s" "position e > 200"
    "wait_motor_stop (motor_states e) 0 = Some k"
  shows "elevation_motor_controller_body e ea s = Some (ELEVATE_STOP,
           [Mutex_lock Motors_mutex, Mutex_unlock Motors_mutex,
            Mutex_lock Top_mutex, Mutex_unlock Top_mutex,
            Motor Elevation_motor Get_position,
            Mutex_lock Correction_mutex, Write (W_correction_in_progress True),
            Mutex_unlock Correction_mutex,
            Motor Elevation_motor (Set_position_sp 0),
            Motor Elevation_motor (Command RUN_ABS_POS),
            Usleep SUSPENSION_TIME]
           @ wait_trace Elevation_motor k
           @ [Motor Elevation_motor (Set_duty_cycle_sp 0),
              Motor Elevation_motor (Command RUN_DIRECT),
              Mutex_lock Correction_mutex, Write (W_correction_in_progress False),
              Mutex_unlock Correction_mutex])"
  using assms
  by (simp add: elevation_motor_controller_body_def is_top_limit_reached_def
      locked_write_def TOP_BOTTOM_POS_def)

text \<open>
  A controller reads two globals, at the start of its body: its field of the intent and
  the limit flag of its axis. Nothing else of the globals has a part in what it does.
\<close>

lemma rotation_body_reads:
  assumes "rotation s' = rotation s" "clockwise_limit_reached s' = clockwise_limit_reached s"
  shows "rotation_motor_controller_body e ra s' = rotation_motor_controller_body e ra s"
  using assms
  by (simp add: rotation_motor_controller_body_def is_clockwise_limit_reached_def Let_def
      cong: if_cong option.case_cong)

lemma elevation_body_reads:
  assumes "elevation s' = elevation s" "top_limit_reached s' = top_limit_reached s"
  shows "elevation_motor_controller_body e ea s' = elevation_motor_controller_body e ea s"
  using assms
  by (simp add: elevation_motor_controller_body_def is_top_limit_reached_def Let_def
      cong: if_cong option.case_cong)

text \<open>What any iteration of any thread does to the close flag and prints.\<close>

lemma close_fold:
  "W_close False \<notin> set ws \<Longrightarrow> close (fold apply_write ws s) = (close s \<or> W_close True \<in> set ws)"
proof (induction ws arbitrary: s)
  case Nil
  then show ?case by simp
next
  case (Cons w ws)
  then show ?case by (cases w) auto
qed

lemma claw_body_writes:
  assumes "claw_motor_controller_body e co s = Some (co', tr)"
  shows "(\<forall>b. W_close b \<notin> set (writes tr)) \<and> (\<forall>msg. Printf msg \<notin> set tr)"
  using assms
  by (auto simp: claw_motor_controller_body_def Let_def locked_write_def writes_append
      writes_wait_trace dest: wait_trace_mem split: if_splits option.splits)

lemma rotation_body_no_printf:
  assumes "rotation_motor_controller_body e ra s = Some (ra', tr)"
  shows "Printf msg \<notin> set tr"
  using assms
  by (auto simp: rotation_motor_controller_body_def Let_def is_clockwise_limit_reached_def
      locked_write_def dest: wait_trace_mem split: if_splits option.splits)

lemma elevation_body_no_printf:
  assumes "elevation_motor_controller_body e ea s = Some (ea', tr)"
  shows "Printf msg \<notin> set tr"
  using assms
  by (auto simp: elevation_motor_controller_body_def Let_def is_top_limit_reached_def
      locked_write_def dest: wait_trace_mem split: if_splits option.splits)

lemma iteration_facts:
  assumes "iteration p e s l body = Some (st, l', s', tr)"
    and "\<And>b. \<not> close s \<Longrightarrow> body = Some (l', b)
           \<Longrightarrow> (\<forall>msg. Printf msg \<notin> set b) \<and> P (writes b)"
    and "close s \<Longrightarrow> P []"
  shows "(\<forall>msg. Printf msg \<notin> set tr) \<and> P (writes tr)
         \<and> s' = fold apply_write (writes tr) s
         \<and> (close s \<longrightarrow> st = Exit_thread \<and> l' = l
               \<and> tr = [Mutex_lock Close_mutex, Mutex_unlock Close_mutex])
         \<and> (\<not> close s \<longrightarrow> st = (if sleep_rc e = 0 then Continue else Abort_process))"
  using iteration_SomeD [OF assms(1)] assms(2,3)
  by (auto simp: writes_append run_events_writes)

lemma buttons_body_facts:
  "(\<forall>msg. Printf msg \<notin> set (buttons_controller_body e))
   \<and> W_close False \<notin> set (writes (buttons_controller_body e))
   \<and> (W_close True \<in> set (writes (buttons_controller_body e)) \<longleftrightarrow> pressed e BUTTON_BACK)"
  by (simp add: buttons_controller_body_def)

lemma activity_iteration_facts:
  assumes "activity_iteration X Y a e l s = Some (st, l', s', tr)"
  shows "(\<forall>msg. Printf msg \<notin> set tr)
         \<and> (W_close False \<notin> set (writes tr)
            \<and> (W_close True \<in> set (writes tr)
                 \<longleftrightarrow> a = Buttons \<and> \<not> close s \<and> pressed e BUTTON_BACK))
         \<and> s' = fold apply_write (writes tr) s
         \<and> (close s \<longrightarrow> st = Exit_thread \<and> l' = l
               \<and> tr = [Mutex_lock Close_mutex, Mutex_unlock Close_mutex])
         \<and> (\<not> close s \<longrightarrow> st = (if sleep_rc e = 0 then Continue else Abort_process))"
proof -
  let ?P = "\<lambda>ws. W_close False \<notin> set ws
      \<and> (W_close True \<in> set ws \<longleftrightarrow> a = Buttons \<and> \<not> close s \<and> pressed e BUTTON_BACK)"
  have key: ?thesis
    if it: "iteration p e s x body = Some (st, x', s', tr)"
      and lx: "close s \<Longrightarrow> x' = x \<Longrightarrow> l' = l"
      and body: "\<And>b. \<not> close s \<Longrightarrow> body = Some (x', b)
           \<Longrightarrow> (\<forall>msg. Printf msg \<notin> set b) \<and> ?P (writes b)"
    for p and x x' :: 'x and body
    using iteration_facts [OF it, where P = ?P] lx body by auto
  show ?thesis
  proof (cases a)
    case Buttons
    with assms have it: "iteration BUTTON_PERIOD e s () (Some ((), buttons_controller_body e))
        = Some (st, (), s', tr)" and l: "l' = l"
      by (auto simp: activity_iteration_def buttons_controller_def)
    show ?thesis
      by (rule key [OF it]) (use buttons_body_facts [of e] in \<open>auto simp: l Buttons\<close>)
  next
    case Color
    with assms have it: "iteration COLOR_PERIOD e s () (Some ((), color_sensor_controller_body e))
        = Some (st, (), s', tr)" and l: "l' = l"
      by (auto simp: activity_iteration_def color_sensor_controller_def)
    show ?thesis
      by (rule key [OF it])
        (auto simp: l Color color_sensor_controller_body_def locked_write_def Let_def
            split: if_splits)
  next
    case Touch
    with assms have it: "iteration TOUCH_PERIOD e s () (Some ((), touch_sensor_controller_body e))
        = Some (st, (), s', tr)" and l: "l' = l"
      by (auto simp: activity_iteration_def touch_sensor_controller_def)
    show ?thesis
      by (rule key [OF it])
        (auto simp: l Touch touch_sensor_controller_body_def locked_write_def Let_def
            split: if_splits)
  next
    case Rotation
    with assms obtain x where it: "iteration MOTOR_PERIOD e s (rotation_actual l)
          (rotation_motor_controller_body e (rotation_actual l) s) = Some (st, x, s', tr)"
      and l: "l' = l\<lparr>rotation_actual := x\<rparr>"
      by (auto simp: activity_iteration_def rotation_motor_controller_def)
    show ?thesis
    proof (rule key [OF it])
      show "l' = l" if "x = rotation_actual l" using that l by simp
    next
      fix b assume "rotation_motor_controller_body e (rotation_actual l) s = Some (x, b)"
      from rotation_body_cases [OF this] rotation_body_no_printf [OF this]
      show "(\<forall>msg. Printf msg \<notin> set b) \<and> ?P (writes b)"
        using Rotation by auto
    qed
  next
    case Elevation
    with assms obtain x where it: "iteration MOTOR_PERIOD e s (elevation_actual l)
          (elevation_motor_controller_body e (elevation_actual l) s) = Some (st, x, s', tr)"
      and l: "l' = l\<lparr>elevation_actual := x\<rparr>"
      by (auto simp: activity_iteration_def elevation_motor_controller_def)
    show ?thesis
    proof (rule key [OF it])
      show "l' = l" if "x = elevation_actual l" using that l by simp
    next
      fix b assume "elevation_motor_controller_body e (elevation_actual l) s = Some (x, b)"
      from elevation_body_cases [OF this] elevation_body_no_printf [OF this]
      show "(\<forall>msg. Printf msg \<notin> set b) \<and> ?P (writes b)"
        using Elevation by auto
    qed
  next
    case Claw
    with assms obtain x where it: "iteration MOTOR_PERIOD e s (claw_open l)
          (claw_motor_controller_body e (claw_open l) s) = Some (st, x, s', tr)"
      and l: "l' = l\<lparr>claw_open := x\<rparr>"
      by (auto simp: activity_iteration_def claw_motor_controller_def)
    show ?thesis
    proof (rule key [OF it])
      show "l' = l" if "x = claw_open l" using that l by simp
    next
      fix b assume "claw_motor_controller_body e (claw_open l) s = Some (x, b)"
      from claw_body_writes [OF this]
      show "(\<forall>msg. Printf msg \<notin> set b) \<and> ?P (writes b)"
        using Claw by auto
    qed
  next
    case Leds
    with assms obtain x where it: "iteration LED_PERIOD e s (previous l)
          (Some (leds_controller_body (previous l) s)) = Some (st, x, s', tr)"
      and l: "l' = l\<lparr>previous := x\<rparr>"
      by (auto simp: activity_iteration_def leds_controller_def)
    show ?thesis
    proof (rule key [OF it])
      show "l' = l" if "x = previous l" using that l by simp
    next
      fix b assume "Some (leds_controller_body (previous l) s) = Some (x, b)"
      then show "(\<forall>msg. Printf msg \<notin> set b) \<and> ?P (writes b)"
        using Leds by (auto simp: leds_controller_body_def Let_def split: if_splits)
    qed
  next
    case Lcd_reporter
    with assms have it: "iteration REPORTER_PERIOD e s () (Some ((), reporter_body X Y e s))
        = Some (st, (), s', tr)" and l: "l' = l"
      by (auto simp: activity_iteration_def reporter_def)
    show ?thesis
      by (rule key [OF it]) (auto simp: l Lcd_reporter reporter_body_def Let_def split: if_splits)
  qed
qed

text \<open>No thread reads the result of a device call.\<close>

lemma bodies_dev_rc:
  "rotation_motor_controller_body (e\<lparr>dev_rc := r\<rparr>) ra s = rotation_motor_controller_body e ra s"
  "elevation_motor_controller_body (e\<lparr>dev_rc := r\<rparr>) ea s = elevation_motor_controller_body e ea s"
  "claw_motor_controller_body (e\<lparr>dev_rc := r\<rparr>) co s = claw_motor_controller_body e co s"
  "buttons_controller_body (e\<lparr>dev_rc := r\<rparr>) = buttons_controller_body e"
  "color_sensor_controller_body (e\<lparr>dev_rc := r\<rparr>) = color_sensor_controller_body e"
  "touch_sensor_controller_body (e\<lparr>dev_rc := r\<rparr>) = touch_sensor_controller_body e"
  "reporter_body X Y (e\<lparr>dev_rc := r\<rparr>) s = reporter_body X Y e s"
  by (simp_all add: rotation_motor_controller_body_def elevation_motor_controller_body_def
      claw_motor_controller_body_def buttons_controller_body_def
      color_sensor_controller_body_def touch_sensor_controller_body_def reporter_body_def
      cong: if_cong)

lemma iteration_dev_rc:
  "iteration p (e\<lparr>dev_rc := r\<rparr>) s l body = iteration p e s l body"
  by (simp add: iteration_def cong: if_cong option.case_cong)

lemma dev_rc_unused:
  "activity_iteration X Y a (e\<lparr>dev_rc := r\<rparr>) l s = activity_iteration X Y a e l s"
  by (cases a)
    (simp_all add: activity_iteration_def buttons_controller_def color_sensor_controller_def
      touch_sensor_controller_def rotation_motor_controller_def elevation_motor_controller_def
      claw_motor_controller_def leds_controller_def reporter_def iteration_dev_rc
      bodies_dev_rc)

lemma color_failing_iteration:
  "activity_iteration X Y Color failing_env initial_locals initial_shared
     = Some (Continue, initial_locals, initial_shared, color_quiet_trace)"
  by (simp add: activity_iteration_def color_sensor_controller_def iteration_def
      is_close_pressed_def color_sensor_controller_body_def failing_env_def quiet_env_def
      initial_shared_def REFLECTION_LIMIT_def color_quiet_trace_def)

text \<open>Steps and runs of the whole program.\<close>

lemma step_facts:
  assumes "step X Y a e sys = Some sys1"
  shows "\<exists>new. log sys1 = log sys @ new
           \<and> (\<forall>(b, tr) \<in> set new. W_close False \<notin> set (writes tr))
           \<and> (close (globals sys) \<longrightarrow> close (globals sys1))"
proof (cases "aborted sys \<or> state_of sys a \<noteq> Continue")
  case True
  with assms have "sys1 = sys" by (simp add: step_def)
  then show ?thesis by simp
next
  case False
  with assms obtain st l' s' tr where
    it: "activity_iteration X Y a e (locs sys) (globals sys) = Some (st, l', s', tr)"
    and s1: "sys1 = sys\<lparr>globals := s', locs := l', state_of := (state_of sys)(a := st),
                         aborted := (st = Abort_process), log := log sys @ [(a, tr)]\<rparr>"
    by (auto simp: step_def split: option.splits)
  note f = activity_iteration_facts [OF it]
  from f have "close s' = (close (globals sys) \<or> W_close True \<in> set (writes tr))"
    using close_fold [of "writes tr" "globals sys"] by simp
  with f s1 show ?thesis by simp
qed

lemma step_after_close:
  assumes "close (globals sys)"
  shows "step X Y a e sys =
           Some (if aborted sys \<or> state_of sys a \<noteq> Continue then sys
                 else sys\<lparr>state_of := (state_of sys)(a := Exit_thread),
                          log := log sys @ [(a, [Mutex_lock Close_mutex, Mutex_unlock Close_mutex])]\<rparr>)"
proof (cases "aborted sys \<or> state_of sys a \<noteq> Continue")
  case True
  then show ?thesis by (simp add: step_def)
next
  case False
  have "activity_iteration X Y a e (locs sys) (globals sys)
      = Some (Exit_thread, locs sys, globals sys, [Mutex_lock Close_mutex, Mutex_unlock Close_mutex])"
    using assms
    by (cases a)
      (simp_all add: activity_iteration_def buttons_controller_def color_sensor_controller_def
        touch_sensor_controller_def rotation_motor_controller_def elevation_motor_controller_def
        claw_motor_controller_def leds_controller_def reporter_def iteration_def
        is_close_pressed_def)
  with False show ?thesis by (simp add: step_def)
qed

lemma run_facts:
  assumes "system_run X Y sch sys = Some sys'"
  shows "\<exists>new. log sys' = log sys @ new
           \<and> (\<forall>(b, tr) \<in> set new. W_close False \<notin> set (writes tr))
           \<and> (close (globals sys) \<longrightarrow> close (globals sys'))"
  using assms
proof (induction sch arbitrary: sys)
  case Nil
  then show ?case by simp
next
  case (Cons ae sch)
  obtain a e where ae: "ae = (a, e)" by (cases ae)
  from Cons.prems ae obtain sys1 where s1: "step X Y a e sys = Some sys1"
    and r: "system_run X Y sch sys1 = Some sys'" by (auto split: option.splits)
  from step_facts [OF s1] obtain n1 where n1: "log sys1 = log sys @ n1"
    "\<forall>(b, tr) \<in> set n1. W_close False \<notin> set (writes tr)"
    "close (globals sys) \<longrightarrow> close (globals sys1)" by blast
  from Cons.IH [OF r] obtain n2 where n2: "log sys' = log sys1 @ n2"
    "\<forall>(b, tr) \<in> set n2. W_close False \<notin> set (writes tr)"
    "close (globals sys1) \<longrightarrow> close (globals sys')" by blast
  show ?case
    by (rule exI [of _ "n1 @ n2"]) (use n1 n2 in auto)
qed

lemma run_after_close:
  assumes "close (globals sys)"
  shows "\<exists>sys' new. system_run X Y sch sys = Some sys'
           \<and> globals sys' = globals sys \<and> locs sys' = locs sys \<and> aborted sys' = aborted sys
           \<and> log sys' = log sys @ new
           \<and> (\<forall>(b, tr) \<in> set new. tr = [Mutex_lock Close_mutex, Mutex_unlock Close_mutex]
                  \<and> state_of sys b = Continue)
           \<and> distinct (map fst new)
           \<and> (\<forall>b. state_of sys b \<noteq> Continue \<longrightarrow> state_of sys' b = state_of sys b)
           \<and> (\<forall>b. state_of sys' b \<noteq> state_of sys b \<longrightarrow> state_of sys' b = Exit_thread)
           \<and> (\<not> aborted sys \<longrightarrow> (\<forall>b \<in> fst ` set sch. state_of sys' b \<noteq> Continue))"
  using assms
proof (induction sch arbitrary: sys)
  case Nil
  then show ?case by simp
next
  case (Cons ae sch)
  obtain a e where ae: "ae = (a, e)" by (cases ae)
  show ?case
  proof (cases "aborted sys \<or> state_of sys a \<noteq> Continue")
    case True
    then have st: "step X Y a e sys = Some sys" by (simp add: step_def)
    from Cons.IH [OF Cons.prems] obtain sys' new where r:
      "system_run X Y sch sys = Some sys'"
      "globals sys' = globals sys" "locs sys' = locs sys" "aborted sys' = aborted sys"
      "log sys' = log sys @ new"
      "\<forall>(b, tr) \<in> set new. tr = [Mutex_lock Close_mutex, Mutex_unlock Close_mutex]
                  \<and> state_of sys b = Continue"
      "distinct (map fst new)"
      "\<forall>b. state_of sys b \<noteq> Continue \<longrightarrow> state_of sys' b = state_of sys b"
      "\<forall>b. state_of sys' b \<noteq> state_of sys b \<longrightarrow> state_of sys' b = Exit_thread"
      "\<not> aborted sys \<longrightarrow> (\<forall>b \<in> fst ` set sch. state_of sys' b \<noteq> Continue)"
      by blast
    have "\<not> aborted sys \<longrightarrow> state_of sys' a \<noteq> Continue" using True r(8) by auto
    with r st ae show ?thesis
      by (intro exI [of _ sys'] exI [of _ new]) auto
  next
    case False
    define sys1 where "sys1 = sys\<lparr>state_of := (state_of sys)(a := Exit_thread),
        log := log sys @ [(a, [Mutex_lock Close_mutex, Mutex_unlock Close_mutex])]\<rparr>"
    have st: "step X Y a e sys = Some sys1"
      using step_after_close [OF Cons.prems, of X Y a e] False by (simp add: sys1_def)
    have c1: "close (globals sys1)" using Cons.prems by (simp add: sys1_def)
    from Cons.IH [OF c1] obtain sys' new where r:
      "system_run X Y sch sys1 = Some sys'"
      "globals sys' = globals sys1" "locs sys' = locs sys1" "aborted sys' = aborted sys1"
      "log sys' = log sys1 @ new"
      "\<forall>(b, tr) \<in> set new. tr = [Mutex_lock Close_mutex, Mutex_unlock Close_mutex]
                  \<and> state_of sys1 b = Continue"
      "distinct (map fst new)"
      "\<forall>b. state_of sys1 b \<noteq> Continue \<longrightarrow> state_of sys' b = state_of sys1 b"
      "\<forall>b. state_of sys' b \<noteq> state_of sys1 b \<longrightarrow> state_of sys' b = Exit_thread"
      "\<not> aborted sys1 \<longrightarrow> (\<forall>b \<in> fst ` set sch. state_of sys' b \<noteq> Continue)"
      by blast
    have a_new: "a \<notin> fst ` set new"
      using r(6) by (auto simp: sys1_def)
    have a_exit: "state_of sys' a = Exit_thread"
      using r(8) by (simp add: sys1_def)
    have others: "\<And>b. b \<noteq> a \<Longrightarrow> state_of sys1 b = state_of sys b" by (simp add: sys1_def)
    have new_cont: "\<forall>(b, tr) \<in> set new. tr = [Mutex_lock Close_mutex, Mutex_unlock Close_mutex]
                  \<and> state_of sys b = Continue"
    proof (intro ballI, clarify)
      fix b tr assume m: "(b, tr) \<in> set new"
      with r(6) have x: "tr = [Mutex_lock Close_mutex, Mutex_unlock Close_mutex]"
        "state_of sys1 b = Continue" by auto
      from m a_new have "b \<noteq> a" by force
      with others x show "tr = [Mutex_lock Close_mutex, Mutex_unlock Close_mutex]
          \<and> state_of sys b = Continue" by simp
    qed
    show ?thesis
    proof (intro exI [of _ sys'] exI [of _ "(a, [Mutex_lock Close_mutex, Mutex_unlock Close_mutex]) # new"] conjI)
      show "system_run X Y (ae # sch) sys = Some sys'" using st r(1) ae by simp
      show "globals sys' = globals sys" "locs sys' = locs sys" "aborted sys' = aborted sys"
        using r(2,3,4) by (simp_all add: sys1_def)
      show "log sys' = log sys @ (a, [Mutex_lock Close_mutex, Mutex_unlock Close_mutex]) # new"
        using r(5) by (simp add: sys1_def)
      show "\<forall>(b, tr) \<in> set ((a, [Mutex_lock Close_mutex, Mutex_unlock Close_mutex]) # new).
          tr = [Mutex_lock Close_mutex, Mutex_unlock Close_mutex] \<and> state_of sys b = Continue"
        using new_cont False by auto
      show "distinct (map fst ((a, [Mutex_lock Close_mutex, Mutex_unlock Close_mutex]) # new))"
        using r(7) a_new by simp
      show "\<forall>b. state_of sys b \<noteq> Continue \<longrightarrow> state_of sys' b = state_of sys b"
        using r(8) others False by (metis)
      show "\<forall>b. state_of sys' b \<noteq> state_of sys b \<longrightarrow> state_of sys' b = Exit_thread"
        using r(9) others a_exit by (metis)
      show "\<not> aborted sys \<longrightarrow> (\<forall>b \<in> fst ` set (ae # sch). state_of sys' b \<noteq> Continue)"
        using r(10) a_exit ae by (auto simp: sys1_def)
    qed
  qed
qed

lemma closing_run:
  "system_run 178 128 closing_schedule closed_system
     = Some (closed_system\<lparr>state_of := (\<lambda>a. if a = Rotation \<or> a = Leds then Exit_thread else Continue),
          log := [(Rotation, [Mutex_lock Close_mutex, Mutex_unlock Close_mutex]),
                  (Leds, [Mutex_lock Close_mutex, Mutex_unlock Close_mutex])]\<rparr>)"
proof -
  have c: "close (globals closed_system)" by (simp add: closed_system_def)
  show ?thesis
    by (simp add: closing_schedule_def step_after_close closed_system_def initial_system_def
        fun_eq_iff)
qed

text \<open>The startup and the LED reporter.\<close>

lemma elevation_calibration:
  "elevation_motor_initializer calib_env = Some (Exit_thread, elevation_calibration_trace)"
  by (simp add: elevation_motor_initializer_def calib_env_def sample_until_stop sample_until_go
     REFLECTION_LIMIT_def MOTOR_RUNNING_def Let_def read_sleep_trace_def
     sleep_state_trace_def elevation_calibration_trace_def ELEVATION_UP_POWER_def
     STEP_ELEVATION_SPEED_def sdiv_examples ELEVATION_INIT_UNITS_def)

lemma claw_calibration:
  "claw_motor_initializer calib_env = Some (Exit_thread, claw_calibration_trace)"
  by (simp add: claw_motor_initializer_def calib_env_def sample_until_stop sample_until_go
     MOTOR_LIMIT_def MOTOR_RUNNING_def Let_def read_sleep_trace_def
     sleep_state_trace_def claw_calibration_trace_def CLAW_POWER_def
     STEP_CLAW_SPEED_def sdiv_examples CLAW_INIT_UNITS_def)

lemma good_startup_run: "main_startup good_startup = Some (Threads_created, startup_trace)"
  by (simp add: main_startup_def good_startup_def rotation_calibration elevation_calibration
      claw_calibration startup_trace_def Let_def)

lemma read_sleep_trace_mem:
  "x \<in> set (read_sleep_trace rd k) \<Longrightarrow> x = rd \<or> x = Clock_nanosleep MOTOR_PERIOD"
  by (auto simp: read_sleep_trace_def split: if_splits)

lemma sleep_state_trace_mem:
  "x \<in> set (sleep_state_trace m ok k) \<Longrightarrow> x = Motor m Motor_state \<or> x = Clock_nanosleep MOTOR_PERIOD"
  by (auto simp: sleep_state_trace_def split: if_splits)

lemma initializers_no_led:
  "rotation_motor_initializer ie = Some (st, tr) \<Longrightarrow> Set_led l c v \<notin> set tr"
  "elevation_motor_initializer ie = Some (st, tr) \<Longrightarrow> Set_led l c v \<notin> set tr"
  "claw_motor_initializer ie = Some (st, tr) \<Longrightarrow> Set_led l c v \<notin> set tr"
  by (auto simp: rotation_motor_initializer_def elevation_motor_initializer_def
      claw_motor_initializer_def Let_def
      dest!: read_sleep_trace_mem sleep_state_trace_mem
      split: option.splits if_splits prod.splits)

lemma main_startup_no_led:
  assumes "main_startup se = Some (res, tr)"
  shows "Set_led l c v \<notin> set tr"
  using assms
  by (auto simp: main_startup_def Let_def dest: initializers_no_led
      split: option.splits if_splits prod.splits)

lemma leds_quiet_iteration:
  assumes "leds_controller e False s = Some (st, prev', s', tr)" "\<not> correction_in_progress s"
  shows "prev' = False \<and> (\<forall>l c v. Set_led l c v \<notin> set tr)"
  using assms
  by (auto simp: leds_controller_def iteration_def is_close_pressed_def
      leds_controller_body_def Let_def split: if_splits)

lemma leds_quiet_run:
  assumes "thread_run leds_controller False obs = Some (prev', trs)"
    "\<forall>(e, s) \<in> set obs. \<not> correction_in_progress s"
  shows "prev' = False \<and> (\<forall>tr \<in> set trs. \<forall>l c v. Set_led l c v \<notin> set tr)"
  using assms
proof (induction obs arbitrary: prev' trs)
  case Nil
  then show ?case by simp
next
  case (Cons ob obs)
  obtain e s where ob: "ob = (e, s)" by (cases ob)
  from Cons.prems(1) ob obtain st p1 s1 tr where it:
    "leds_controller e False s = Some (st, p1, s1, tr)" by (auto split: option.splits)
  from Cons.prems(2) ob have nc: "\<not> correction_in_progress s" by simp
  from leds_quiet_iteration [OF it nc] have p1: "p1 = False"
    and q: "\<forall>l c v. Set_led l c v \<notin> set tr" by simp_all
  show ?case
  proof (cases "st = Continue")
    case True
    with Cons.prems(1) ob it p1 obtain trs' where r:
      "thread_run leds_controller False obs = Some (prev', trs')" "trs = tr # trs'"
      by (auto split: option.splits)
    from Cons.IH [OF r(1)] Cons.prems(2)
    have "prev' = False \<and> (\<forall>tr \<in> set trs'. \<forall>l c v. Set_led l c v \<notin> set tr)" by simp
    with q r(2) show ?thesis by simp
  next
    case False
    with Cons.prems(1) ob it have "trs = [tr]" "prev' = p1" by auto
    with q p1 show ?thesis by simp
  qed
qed

lemma leds_idle_iteration:
  "leds_controller quiet_env False initial_shared
     = Some (Continue, False, initial_shared, leds_idle_trace)"
  by (simp add: leds_controller_def iteration_def is_close_pressed_def leds_controller_body_def
      quiet_env_def initial_shared_def leds_idle_trace_def)

text \<open>The correction flag along the events of one controller.\<close>

lemma flag_covers_head: "flag_covers m r s evs \<Longrightarrow> r \<longrightarrow> correction_in_progress s"
  by (cases evs) simp_all

lemma flag_covers_append:
  "flag_covers m r s (xs @ ys)
     = (flag_covers m r s xs
        \<and> flag_covers m (foldl (recovery_step m) r xs) (run_events xs s) ys)"
proof (induction xs arbitrary: r s)
  case Nil
  show ?case using flag_covers_head [of m r s ys] by auto
next
  case (Cons x xs)
  then show ?case by simp
qed

lemma flag_covers_prefix:
  assumes "flag_covers m False s (xs @ ys)" "in_recovery m xs"
  shows "correction_in_progress (run_events xs s)"
  using assms flag_covers_head [of m "foldl (recovery_step m) False xs" "run_events xs s" ys]
  by (simp add: flag_covers_append in_recovery_def)

lemma recovery_step_wait_trace: "foldl (recovery_step m) r (wait_trace m' k) = r"
  by (induction k) (simp_all add: wait_trace_def recovery_step_def)

lemma flag_covers_wait_trace:
  "flag_covers m r s (wait_trace m' k @ evs) = flag_covers m r s evs"
  using flag_covers_head [of m r s evs]
  by (induction k) (auto simp: wait_trace_def recovery_step_def)

lemma rotation_body_flag_covers:
  assumes "rotation_motor_controller_body e ra s = Some (ra', tr)"
  shows "flag_covers Rotation_motor False s tr
         \<and> \<not> in_recovery Rotation_motor tr
         \<and> (clockwise_limit_reached s \<or> position e < - 400
              \<longrightarrow> \<not> correction_in_progress (run_events tr s))"
  using assms
  by (auto simp: rotation_motor_controller_body_def Let_def is_clockwise_limit_reached_def
      locked_write_def TOP_LEFT_POS_def flag_covers_wait_trace recovery_step_def in_recovery_def
      recovery_step_wait_trace run_events_append run_events_wait_trace
      split: if_splits option.splits)

lemma elevation_body_flag_covers:
  assumes "elevation_motor_controller_body e ea s = Some (ea', tr)"
  shows "flag_covers Elevation_motor False s tr
         \<and> \<not> in_recovery Elevation_motor tr
         \<and> (top_limit_reached s \<or> position e > 200
              \<longrightarrow> \<not> correction_in_progress (run_events tr s))"
  using assms
  by (auto simp: elevation_motor_controller_body_def Let_def is_top_limit_reached_def
      locked_write_def TOP_BOTTOM_POS_def flag_covers_wait_trace recovery_step_def in_recovery_def
      recovery_step_wait_trace run_events_append run_events_wait_trace
      split: if_splits option.splits)

text \<open>
  A controller alone: at every point of its body at which its motor is inside a recovery
  move the flag is true, and after a recovery the flag is false.
\<close>

lemma rotation_alone_keeps_flag:
  assumes "rotation_motor_controller_body e ra s = Some (ra', xs @ ys)"
    "in_recovery Rotation_motor xs"
  shows "correction_in_progress (run_events xs s)"
  using rotation_body_flag_covers [OF assms(1)] assms(2) by (auto intro: flag_covers_prefix)

lemma elevation_alone_keeps_flag:
  assumes "elevation_motor_controller_body e ea s = Some (ea', xs @ ys)"
    "in_recovery Elevation_motor xs"
  shows "correction_in_progress (run_events xs s)"
  using elevation_body_flag_covers [OF assms(1)] assms(2) by (auto intro: flag_covers_prefix)

text \<open>
  The brightness of the LEDs: the startup and the idle reporter leave it to what
  \<open>ev3_init_led\<close> makes of it.
\<close>

lemma leds_after_append:
  "leds_after i (xs @ ys) b = leds_after i ys (leds_after i xs b)"
proof (induction xs arbitrary: b)
  case Nil
  then show ?case by simp
next
  case (Cons x xs)
  then show ?case by (cases x) (simp_all del: fun_upd_apply)
qed

lemma leds_after_plain:
  assumes "\<And>l c v. Set_led l c v \<notin> set evs" "Init_led \<notin> set evs"
  shows "leds_after i evs b = b"
  using assms
proof (induction evs arbitrary: b)
  case Nil
  then show ?case by simp
next
  case (Cons x xs)
  then show ?case by (cases x) (auto simp del: fun_upd_apply)
qed

lemma initializers_no_init_led:
  "rotation_motor_initializer ie = Some (st, tr) \<Longrightarrow> Init_led \<notin> set tr"
  "elevation_motor_initializer ie = Some (st, tr) \<Longrightarrow> Init_led \<notin> set tr"
  "claw_motor_initializer ie = Some (st, tr) \<Longrightarrow> Init_led \<notin> set tr"
  by (auto simp: rotation_motor_initializer_def elevation_motor_initializer_def
      claw_motor_initializer_def Let_def
      dest!: read_sleep_trace_mem sleep_state_trace_mem
      split: option.splits if_splits prod.splits)

lemma initializers_leds:
  "rotation_motor_initializer ie = Some (st, tr) \<Longrightarrow> leds_after i tr b = b"
  "elevation_motor_initializer ie = Some (st, tr) \<Longrightarrow> leds_after i tr b = b"
  "claw_motor_initializer ie = Some (st, tr) \<Longrightarrow> leds_after i tr b = b"
  by (auto intro!: leds_after_plain dest: initializers_no_led initializers_no_init_led)

lemma main_startup_leds:
  assumes "main_startup se = Some (Threads_created, tr)"
  shows "leds_after i tr b = i b"
  using assms
  by (auto simp: main_startup_def Let_def leds_after_append initializers_leds
      split: option.splits if_splits prod.splits)

lemma leds_quiet_iteration_leds:
  assumes "leds_controller e False s = Some (st, prev', s', tr)" "\<not> correction_in_progress s"
  shows "prev' = False \<and> leds_after i tr b = b"
  using assms
  by (auto simp: leds_controller_def iteration_def is_close_pressed_def
      leds_controller_body_def Let_def CHK_def split: if_splits)

lemma leds_quiet_run_leds:
  assumes "thread_run leds_controller False obs = Some (prev', trs)"
    "\<forall>(e, s) \<in> set obs. \<not> correction_in_progress s"
  shows "prev' = False \<and> leds_after i (concat trs) b = b"
  using assms
proof (induction obs arbitrary: prev' trs)
  case Nil
  then show ?case by simp
next
  case (Cons ob obs)
  obtain e s where ob: "ob = (e, s)" by (cases ob)
  from Cons.prems(1) ob obtain st p1 s1 tr where it:
    "leds_controller e False s = Some (st, p1, s1, tr)" by (auto split: option.splits)
  from Cons.prems(2) ob have nc: "\<not> correction_in_progress s" by simp
  from leds_quiet_iteration_leds [OF it nc] have p1: "p1 = False"
    and q: "leds_after i tr b = b" by simp_all
  show ?case
  proof (cases "st = Continue")
    case True
    with Cons.prems(1) ob it p1 obtain trs' where r:
      "thread_run leds_controller False obs = Some (prev', trs')" "trs = tr # trs'"
      by (auto split: option.splits)
    from Cons.IH [OF r(1)] Cons.prems(2)
    have "prev' = False \<and> leds_after i (concat trs') b = b" by simp
    with q r(2) show ?thesis by (simp add: leds_after_append)
  next
    case False
    with Cons.prems(1) ob it have "trs = [tr]" "prev' = p1" by auto
    with q p1 show ?thesis by simp
  qed
qed

lemma leds_red_run:
  "thread_run leds_controller False [(quiet_env, correcting), (quiet_env, correcting_closed)]
     = Some (True, [leds_red_trace, leds_exit_trace])"
  by (simp add: leds_controller_def iteration_def is_close_pressed_def leds_controller_body_def
      quiet_env_def correcting_def correcting_closed_def initial_shared_def
      leds_red_trace_def leds_exit_trace_def)

lemma leds_idle_run:
  "thread_run leds_controller False [(quiet_env, initial_shared), (quiet_env, initial_shared)]
     = Some (False, [leds_idle_trace, leds_idle_trace])"
  by (simp add: leds_idle_iteration)

section \<open>Duty cycles\<close>

lemma rotation_body_duty:
  assumes "rotation_motor_controller_body e ra s = Some (ra', tr)"
    and "Motor m (Set_duty_cycle_sp v) \<in> set tr"
  shows "m = Rotation_motor \<and> v \<in> {30, - 30, 0}"
  using assms
  by (auto simp: rotation_motor_controller_body_def Let_def is_clockwise_limit_reached_def
      locked_write_def ROTATION_POWER_def dest: wait_trace_mem
      split: if_splits option.splits actions_rotation.splits)

lemma elevation_body_duty:
  assumes "elevation_motor_controller_body e ea s = Some (ea', tr)"
    and "Motor m (Set_duty_cycle_sp v) \<in> set tr"
  shows "m = Elevation_motor \<and> v \<in> {- 30, 20, 0}"
  using assms
  by (auto simp: elevation_motor_controller_body_def Let_def is_top_limit_reached_def
      locked_write_def ELEVATION_UP_POWER_def ELEVATION_DOWN_POWER_def dest: wait_trace_mem
      split: if_splits option.splits actions_elevation.splits)

lemma claw_body_duty:
  assumes "claw_motor_controller_body e co s = Some (co', tr)"
    and "Motor m (Set_duty_cycle_sp v) \<in> set tr"
  shows "m = Claw_motor \<and> v \<in> {- 40, 0}"
  using assms
  by (auto simp: claw_motor_controller_body_def Let_def locked_write_def CLAW_POWER_def
      dest: wait_trace_mem split: if_splits option.splits)

text \<open>
  Claim C1. In every iteration of a motor controller, whatever the intent, the globals and
  the readings, each duty-cycle setpoint goes to the controller's own motor and has one of
  the values of its axis: 30, -30 or 0 for the rotation, -30, 20 or 0 for the elevation,
  -40 or 0 for the claw.
\<close>

theorem duty_cycle_in_range:
  "(rotation_motor_controller e1 ra s1 = Some (st1, ra', s1', tr1)
      \<longrightarrow> (\<forall>m v. Motor m (Set_duty_cycle_sp v) \<in> set tr1
            \<longrightarrow> m = Rotation_motor \<and> v \<in> {30, - 30, 0}))
   \<and> (elevation_motor_controller e2 ea s2 = Some (st2, ea', s2', tr2)
      \<longrightarrow> (\<forall>m v. Motor m (Set_duty_cycle_sp v) \<in> set tr2
            \<longrightarrow> m = Elevation_motor \<and> v \<in> {- 30, 20, 0}))
   \<and> (claw_motor_controller e3 co s3 = Some (st3, co', s3', tr3)
      \<longrightarrow> (\<forall>m v. Motor m (Set_duty_cycle_sp v) \<in> set tr3
            \<longrightarrow> m = Claw_motor \<and> v \<in> {- 40, 0}))"
proof (intro conjI impI allI)
  fix m v
  assume a: "rotation_motor_controller e1 ra s1 = Some (st1, ra', s1', tr1)"
    and b: "Motor m (Set_duty_cycle_sp v) \<in> set tr1"
  from iteration_SomeD [OF a [unfolded rotation_motor_controller_def]] b
  obtain t where "rotation_motor_controller_body e1 ra s1 = Some (ra', t)"
    "Motor m (Set_duty_cycle_sp v) \<in> set t" by auto
  then show "m = Rotation_motor" "v \<in> {30, - 30, 0}" using rotation_body_duty by blast+
next
  fix m v
  assume a: "elevation_motor_controller e2 ea s2 = Some (st2, ea', s2', tr2)"
    and b: "Motor m (Set_duty_cycle_sp v) \<in> set tr2"
  from iteration_SomeD [OF a [unfolded elevation_motor_controller_def]] b
  obtain t where "elevation_motor_controller_body e2 ea s2 = Some (ea', t)"
    "Motor m (Set_duty_cycle_sp v) \<in> set t" by auto
  then show "m = Elevation_motor" "v \<in> {- 30, 20, 0}" using elevation_body_duty by blast+
next
  fix m v
  assume a: "claw_motor_controller e3 co s3 = Some (st3, co', s3', tr3)"
    and b: "Motor m (Set_duty_cycle_sp v) \<in> set tr3"
  from iteration_SomeD [OF a [unfolded claw_motor_controller_def]] b
  obtain t where "claw_motor_controller_body e3 co s3 = Some (co', t)"
    "Motor m (Set_duty_cycle_sp v) \<in> set t" by auto
  then show "m = Claw_motor" "v \<in> {- 40, 0}" using claw_body_duty by blast+
qed

lemma left_iteration:
  "rotation_motor_controller quiet_env ROTATE_STOP left_held
     = Some (Continue, ROTATE_LEFT, left_held, left_trace)"
  by (simp add: rotation_motor_controller_def iteration_def rotation_motor_controller_body_def
      is_close_pressed_def is_clockwise_limit_reached_def quiet_env_def left_held_def
      initial_shared_def left_trace_def TOP_LEFT_POS_def ROTATION_POWER_def)

lemma up_iteration:
  "elevation_motor_controller quiet_env ELEVATE_STOP up_held
     = Some (Continue, RISE, up_held, up_trace)"
  by (simp add: elevation_motor_controller_def iteration_def elevation_motor_controller_body_def
      is_close_pressed_def is_top_limit_reached_def quiet_env_def up_held_def
      initial_shared_def up_trace_def TOP_BOTTOM_POS_def ELEVATION_UP_POWER_def)

lemma grip_iteration:
  "claw_motor_controller quiet_env True center_held
     = Some (Continue, False, initial_shared\<lparr>claw_used_status := True\<rparr>, grip_trace)"
  by (simp add: claw_motor_controller_def iteration_def claw_motor_controller_body_def
      is_close_pressed_def locked_write_def quiet_env_def center_held_def
      initial_shared_def grip_trace_def CLAW_POWER_def)

theorem duty_cycle_in_range_witness:
  "rotation_motor_controller quiet_env ROTATE_STOP left_held
     = Some (Continue, ROTATE_LEFT, left_held, left_trace)
   \<and> Motor Rotation_motor (Set_duty_cycle_sp (- 30)) \<in> set left_trace
   \<and> elevation_motor_controller quiet_env ELEVATE_STOP up_held
     = Some (Continue, RISE, up_held, up_trace)
   \<and> Motor Elevation_motor (Set_duty_cycle_sp (- 30)) \<in> set up_trace
   \<and> claw_motor_controller quiet_env True center_held
     = Some (Continue, False, initial_shared\<lparr>claw_used_status := True\<rparr>, grip_trace)
   \<and> Motor Claw_motor (Set_duty_cycle_sp (- 40)) \<in> set grip_trace
   \<and> (- 30 :: int) \<in> {30, - 30, 0} \<and> (- 30 :: int) \<in> {- 30, 20, 0} \<and> (- 40 :: int) \<in> {- 40, 0}"
proof -
  have m1: "Motor Rotation_motor (Set_duty_cycle_sp (- 30)) \<in> set left_trace"
    by (simp add: left_trace_def)
  have m2: "Motor Elevation_motor (Set_duty_cycle_sp (- 30)) \<in> set up_trace"
    by (simp add: up_trace_def)
  have m3: "Motor Claw_motor (Set_duty_cycle_sp (- 40)) \<in> set grip_trace"
    by (simp add: grip_trace_def)
  from duty_cycle_in_range
    [of quiet_env ROTATE_STOP left_held Continue ROTATE_LEFT left_held left_trace
        quiet_env ELEVATE_STOP up_held Continue RISE up_held up_trace
        quiet_env True center_held Continue False "initial_shared\<lparr>claw_used_status := True\<rparr>"
        grip_trace]
  show ?thesis using left_iteration up_iteration grip_iteration m1 m2 m3 by blast
qed

section \<open>Recovery after a sensor limit\<close>

lemma rotation_relative_body:
  assumes "clockwise_limit_reached s" "wait_motor_stop (motor_states e) 0 = Some k"
  shows "rotation_motor_controller_body e ra s = Some (ROTATE_STOP,
           [Mutex_lock Motors_mutex, Mutex_unlock Motors_mutex,
            Mutex_lock Clockwise_mutex, Mutex_unlock Clockwise_mutex,
            Mutex_lock Correction_mutex, Write (W_correction_in_progress True),
            Mutex_unlock Correction_mutex,
            Motor Rotation_motor (Set_position_sp (- 350)),
            Motor Rotation_motor (Command RUN_REL_POS),
            Usleep SUSPENSION_TIME]
           @ wait_trace Rotation_motor k
           @ [Mutex_lock Clockwise_mutex, Write (W_clockwise_limit_reached False),
              Mutex_unlock Clockwise_mutex,
              Motor Rotation_motor (Set_duty_cycle_sp 0),
              Motor Rotation_motor (Command RUN_DIRECT),
              Mutex_lock Correction_mutex, Write (W_correction_in_progress False),
              Mutex_unlock Correction_mutex])"
  using assms
  by (simp add: rotation_motor_controller_body_def is_clockwise_limit_reached_def
      locked_write_def ROTATION_INIT_UNITS_def)

lemma elevation_relative_body:
  assumes "top_limit_reached s" "wait_motor_stop (motor_states e) 0 = Some k"
  shows "elevation_motor_controller_body e ea s = Some (ELEVATE_STOP,
           [Mutex_lock Motors_mutex, Mutex_unlock Motors_mutex,
            Mutex_lock Top_mutex, Mutex_unlock Top_mutex,
            Mutex_lock Correction_mutex, Write (W_correction_in_progress True),
            Mutex_unlock Correction_mutex,
            Motor Elevation_motor (Set_position_sp 100),
            Motor Elevation_motor (Command RUN_REL_POS),
            Usleep SUSPENSION_TIME]
           @ wait_trace Elevation_motor k
           @ [Mutex_lock Top_mutex, Write (W_top_limit_reached False),
              Mutex_unlock Top_mutex,
              Motor Elevation_motor (Set_duty_cycle_sp 0),
              Motor Elevation_motor (Command RUN_DIRECT),
              Mutex_lock Correction_mutex, Write (W_correction_in_progress False),
              Mutex_unlock Correction_mutex])"
  using assms
  by (simp add: elevation_motor_controller_body_def is_top_limit_reached_def
      locked_write_def ELEVATION_INIT_UNITS_def)

text \<open>
  Claim C2. In an iteration of the rotation (elevation) controller that finds the sensor
  limit flag of its axis set, and whose motor stops at some poll, the controller commands
  a relative move by -350 (by +100), polls the motor state until the first reading without
  the RUNNING bit, clears the limit flag of the axis, sets the duty cycle to 0 with
  run-direct, and leaves STOP as its current action. Nothing is asked of the position or of
  the intent: the branch is taken also when the soft limit holds in the same iteration.
\<close>

theorem sensor_limit_recovery:
  "(\<not> close s1 \<and> clockwise_limit_reached s1 \<and> motor_states e1 n1 AND MOTOR_RUNNING = 0
     \<longrightarrow> (\<exists>k \<le> n1. motor_states e1 k AND MOTOR_RUNNING = 0
            \<and> (\<forall>j < k. motor_states e1 j AND MOTOR_RUNNING \<noteq> 0)
            \<and> rotation_motor_controller e1 ra s1 =
                Some (if sleep_rc e1 = 0 then Continue else Abort_process, ROTATE_STOP,
                  s1\<lparr>clockwise_limit_reached := False, correction_in_progress := False\<rparr>,
                  [Mutex_lock Close_mutex, Mutex_unlock Close_mutex,
                   Mutex_lock Motors_mutex, Mutex_unlock Motors_mutex,
                   Mutex_lock Clockwise_mutex, Mutex_unlock Clockwise_mutex,
                   Mutex_lock Correction_mutex, Write (W_correction_in_progress True),
                   Mutex_unlock Correction_mutex,
                   Motor Rotation_motor (Set_position_sp (- 350)),
                   Motor Rotation_motor (Command RUN_REL_POS),
                   Usleep SUSPENSION_TIME]
                  @ wait_trace Rotation_motor k
                  @ [Mutex_lock Clockwise_mutex, Write (W_clockwise_limit_reached False),
                     Mutex_unlock Clockwise_mutex,
                     Motor Rotation_motor (Set_duty_cycle_sp 0),
                     Motor Rotation_motor (Command RUN_DIRECT),
                     Mutex_lock Correction_mutex, Write (W_correction_in_progress False),
                     Mutex_unlock Correction_mutex,
                     Clock_nanosleep MOTOR_PERIOD]
                  @ CHK (sleep_rc e1))))
   \<and> (\<not> close s2 \<and> top_limit_reached s2 \<and> motor_states e2 n2 AND MOTOR_RUNNING = 0
     \<longrightarrow> (\<exists>k \<le> n2. motor_states e2 k AND MOTOR_RUNNING = 0
            \<and> (\<forall>j < k. motor_states e2 j AND MOTOR_RUNNING \<noteq> 0)
            \<and> elevation_motor_controller e2 ea s2 =
                Some (if sleep_rc e2 = 0 then Continue else Abort_process, ELEVATE_STOP,
                  s2\<lparr>top_limit_reached := False, correction_in_progress := False\<rparr>,
                  [Mutex_lock Close_mutex, Mutex_unlock Close_mutex,
                   Mutex_lock Motors_mutex, Mutex_unlock Motors_mutex,
                   Mutex_lock Top_mutex, Mutex_unlock Top_mutex,
                   Mutex_lock Correction_mutex, Write (W_correction_in_progress True),
                   Mutex_unlock Correction_mutex,
                   Motor Elevation_motor (Set_position_sp 100),
                   Motor Elevation_motor (Command RUN_REL_POS),
                   Usleep SUSPENSION_TIME]
                  @ wait_trace Elevation_motor k
                  @ [Mutex_lock Top_mutex, Write (W_top_limit_reached False),
                     Mutex_unlock Top_mutex,
                     Motor Elevation_motor (Set_duty_cycle_sp 0),
                     Motor Elevation_motor (Command RUN_DIRECT),
                     Mutex_lock Correction_mutex, Write (W_correction_in_progress False),
                     Mutex_unlock Correction_mutex,
                     Clock_nanosleep MOTOR_PERIOD]
                  @ CHK (sleep_rc e2))))"
proof (intro conjI impI)
  assume a: "\<not> close s1 \<and> clockwise_limit_reached s1 \<and> motor_states e1 n1 AND MOTOR_RUNNING = 0"
  then have stop: "motor_states e1 n1 AND MOTOR_RUNNING = 0" by simp
  from wait_motor_stop_least [of "motor_states e1" n1, OF stop] obtain k where k: "k \<le> n1"
    "wait_motor_stop (motor_states e1) 0 = Some k" "motor_states e1 k AND MOTOR_RUNNING = 0"
    "\<forall>j < k. motor_states e1 j AND MOTOR_RUNNING \<noteq> 0" by blast
  from a have nc: "\<not> close s1" and lim: "clockwise_limit_reached s1" by simp_all
  note b = rotation_relative_body [OF lim k(2), of ra]
  show "\<exists>k \<le> n1. motor_states e1 k AND MOTOR_RUNNING = 0
            \<and> (\<forall>j < k. motor_states e1 j AND MOTOR_RUNNING \<noteq> 0)
            \<and> rotation_motor_controller e1 ra s1 =
                Some (if sleep_rc e1 = 0 then Continue else Abort_process, ROTATE_STOP,
                  s1\<lparr>clockwise_limit_reached := False, correction_in_progress := False\<rparr>,
                  [Mutex_lock Close_mutex, Mutex_unlock Close_mutex,
                   Mutex_lock Motors_mutex, Mutex_unlock Motors_mutex,
                   Mutex_lock Clockwise_mutex, Mutex_unlock Clockwise_mutex,
                   Mutex_lock Correction_mutex, Write (W_correction_in_progress True),
                   Mutex_unlock Correction_mutex,
                   Motor Rotation_motor (Set_position_sp (- 350)),
                   Motor Rotation_motor (Command RUN_REL_POS),
                   Usleep SUSPENSION_TIME]
                  @ wait_trace Rotation_motor k
                  @ [Mutex_lock Clockwise_mutex, Write (W_clockwise_limit_reached False),
                     Mutex_unlock Clockwise_mutex,
                     Motor Rotation_motor (Set_duty_cycle_sp 0),
                     Motor Rotation_motor (Command RUN_DIRECT),
                     Mutex_lock Correction_mutex, Write (W_correction_in_progress False),
                     Mutex_unlock Correction_mutex,
                     Clock_nanosleep MOTOR_PERIOD]
                  @ CHK (sleep_rc e1))"
    apply (rule exI [of _ k])
    using k(1,3,4) unfolding rotation_motor_controller_def iteration_Some [OF nc b]
    by (simp add: run_events_append run_events_wait_trace)
next
  assume a: "\<not> close s2 \<and> top_limit_reached s2 \<and> motor_states e2 n2 AND MOTOR_RUNNING = 0"
  then have stop: "motor_states e2 n2 AND MOTOR_RUNNING = 0" by simp
  from wait_motor_stop_least [of "motor_states e2" n2, OF stop] obtain k where k: "k \<le> n2"
    "wait_motor_stop (motor_states e2) 0 = Some k" "motor_states e2 k AND MOTOR_RUNNING = 0"
    "\<forall>j < k. motor_states e2 j AND MOTOR_RUNNING \<noteq> 0" by blast
  from a have nc: "\<not> close s2" and lim: "top_limit_reached s2" by simp_all
  note b = elevation_relative_body [OF lim k(2), of ea]
  show "\<exists>k \<le> n2. motor_states e2 k AND MOTOR_RUNNING = 0
            \<and> (\<forall>j < k. motor_states e2 j AND MOTOR_RUNNING \<noteq> 0)
            \<and> elevation_motor_controller e2 ea s2 =
                Some (if sleep_rc e2 = 0 then Continue else Abort_process, ELEVATE_STOP,
                  s2\<lparr>top_limit_reached := False, correction_in_progress := False\<rparr>,
                  [Mutex_lock Close_mutex, Mutex_unlock Close_mutex,
                   Mutex_lock Motors_mutex, Mutex_unlock Motors_mutex,
                   Mutex_lock Top_mutex, Mutex_unlock Top_mutex,
                   Mutex_lock Correction_mutex, Write (W_correction_in_progress True),
                   Mutex_unlock Correction_mutex,
                   Motor Elevation_motor (Set_position_sp 100),
                   Motor Elevation_motor (Command RUN_REL_POS),
                   Usleep SUSPENSION_TIME]
                  @ wait_trace Elevation_motor k
                  @ [Mutex_lock Top_mutex, Write (W_top_limit_reached False),
                     Mutex_unlock Top_mutex,
                     Motor Elevation_motor (Set_duty_cycle_sp 0),
                     Motor Elevation_motor (Command RUN_DIRECT),
                     Mutex_lock Correction_mutex, Write (W_correction_in_progress False),
                     Mutex_unlock Correction_mutex,
                     Clock_nanosleep MOTOR_PERIOD]
                  @ CHK (sleep_rc e2))"
    apply (rule exI [of _ k])
    using k(1,3,4) unfolding elevation_motor_controller_def iteration_Some [OF nc b]
    by (simp add: run_events_append run_events_wait_trace)
qed

lemma slow_poll_index:
  assumes "k \<le> 2" "(if k < 2 then 1 else 0) AND MOTOR_RUNNING = (0::int)"
  shows "k = (2::nat)"
  using assms by (cases "k < 2") (simp_all add: MOTOR_RUNNING_def)

theorem sensor_limit_recovery_witness:
  "(\<not> close both_limits \<and> clockwise_limit_reached both_limits
      \<and> motor_states slow_left_env 2 AND MOTOR_RUNNING = 0)
   \<and> position slow_left_env < TOP_LEFT_POS
   \<and> rotation_motor_controller slow_left_env ROTATE_RIGHT both_limits =
       Some (Continue, ROTATE_STOP,
             both_limits\<lparr>clockwise_limit_reached := False, correction_in_progress := False\<rparr>,
             rotation_recovery_trace)
   \<and> (\<not> close both_limits \<and> top_limit_reached both_limits
      \<and> motor_states slow_down_env 2 AND MOTOR_RUNNING = 0)
   \<and> position slow_down_env > TOP_BOTTOM_POS
   \<and> elevation_motor_controller slow_down_env RISE both_limits =
       Some (Continue, ELEVATE_STOP,
             both_limits\<lparr>top_limit_reached := False, correction_in_progress := False\<rparr>,
             elevation_recovery_trace)"
proof -
  have h1: "\<not> close both_limits \<and> clockwise_limit_reached both_limits
      \<and> motor_states slow_left_env 2 AND MOTOR_RUNNING = 0"
    by (simp add: both_limits_def initial_shared_def slow_left_env_def quiet_env_def)
  have h2: "\<not> close both_limits \<and> top_limit_reached both_limits
      \<and> motor_states slow_down_env 2 AND MOTOR_RUNNING = 0"
    by (simp add: both_limits_def initial_shared_def slow_down_env_def quiet_env_def)
  have p1: "position slow_left_env < TOP_LEFT_POS"
    by (simp add: slow_left_env_def quiet_env_def TOP_LEFT_POS_def)
  have p2: "position slow_down_env > TOP_BOTTOM_POS"
    by (simp add: slow_down_env_def quiet_env_def TOP_BOTTOM_POS_def)
  note inst = sensor_limit_recovery
    [of both_limits slow_left_env 2 ROTATE_RIGHT both_limits slow_down_env 2 RISE]
  from inst h1 obtain k where k: "k \<le> 2" "motor_states slow_left_env k AND MOTOR_RUNNING = 0"
    and r: "rotation_motor_controller slow_left_env ROTATE_RIGHT both_limits =
      Some (if sleep_rc slow_left_env = 0 then Continue else Abort_process, ROTATE_STOP,
        both_limits\<lparr>clockwise_limit_reached := False, correction_in_progress := False\<rparr>,
        [Mutex_lock Close_mutex, Mutex_unlock Close_mutex,
         Mutex_lock Motors_mutex, Mutex_unlock Motors_mutex,
         Mutex_lock Clockwise_mutex, Mutex_unlock Clockwise_mutex,
         Mutex_lock Correction_mutex, Write (W_correction_in_progress True),
         Mutex_unlock Correction_mutex,
         Motor Rotation_motor (Set_position_sp (- 350)),
         Motor Rotation_motor (Command RUN_REL_POS),
         Usleep SUSPENSION_TIME]
        @ wait_trace Rotation_motor k
        @ [Mutex_lock Clockwise_mutex, Write (W_clockwise_limit_reached False),
           Mutex_unlock Clockwise_mutex,
           Motor Rotation_motor (Set_duty_cycle_sp 0),
           Motor Rotation_motor (Command RUN_DIRECT),
           Mutex_lock Correction_mutex, Write (W_correction_in_progress False),
           Mutex_unlock Correction_mutex,
           Clock_nanosleep MOTOR_PERIOD]
                  @ CHK (sleep_rc slow_left_env))"
    by blast
  have k2: "k = 2"
    using k by (intro slow_poll_index) (simp_all add: slow_left_env_def quiet_env_def)
  have r': "rotation_motor_controller slow_left_env ROTATE_RIGHT both_limits =
       Some (Continue, ROTATE_STOP,
             both_limits\<lparr>clockwise_limit_reached := False, correction_in_progress := False\<rparr>,
             rotation_recovery_trace)"
    using r unfolding k2 wait_trace_2
    by (simp add: rotation_recovery_trace_def slow_left_env_def quiet_env_def CHK_def)
  from inst h2 obtain j where j: "j \<le> 2" "motor_states slow_down_env j AND MOTOR_RUNNING = 0"
    and q: "elevation_motor_controller slow_down_env RISE both_limits =
      Some (if sleep_rc slow_down_env = 0 then Continue else Abort_process, ELEVATE_STOP,
        both_limits\<lparr>top_limit_reached := False, correction_in_progress := False\<rparr>,
        [Mutex_lock Close_mutex, Mutex_unlock Close_mutex,
         Mutex_lock Motors_mutex, Mutex_unlock Motors_mutex,
         Mutex_lock Top_mutex, Mutex_unlock Top_mutex,
         Mutex_lock Correction_mutex, Write (W_correction_in_progress True),
         Mutex_unlock Correction_mutex,
         Motor Elevation_motor (Set_position_sp 100),
         Motor Elevation_motor (Command RUN_REL_POS),
         Usleep SUSPENSION_TIME]
        @ wait_trace Elevation_motor j
        @ [Mutex_lock Top_mutex, Write (W_top_limit_reached False),
           Mutex_unlock Top_mutex,
           Motor Elevation_motor (Set_duty_cycle_sp 0),
           Motor Elevation_motor (Command RUN_DIRECT),
           Mutex_lock Correction_mutex, Write (W_correction_in_progress False),
           Mutex_unlock Correction_mutex,
           Clock_nanosleep MOTOR_PERIOD]
                  @ CHK (sleep_rc slow_down_env))"
    by blast
  have j2: "j = 2"
    using j by (intro slow_poll_index) (simp_all add: slow_down_env_def quiet_env_def)
  have q': "elevation_motor_controller slow_down_env RISE both_limits =
       Some (Continue, ELEVATE_STOP,
             both_limits\<lparr>top_limit_reached := False, correction_in_progress := False\<rparr>,
             elevation_recovery_trace)"
    using q unfolding j2 wait_trace_2
    by (simp add: elevation_recovery_trace_def slow_down_env_def quiet_env_def CHK_def)
  from h1 h2 p1 p2 r' q' show ?thesis by blast
qed

section \<open>Recovery after a soft limit\<close>

text \<open>
  Claim C10. An iteration of the rotation (elevation) controller that takes the soft-limit
  branch (limit flag of the axis not set, position below -400, resp. above 200) assigns to
  \<open>correction_in_progress\<close> only: both limit flags and the three intent fields are after it
  what they were before. An iteration of a controller assigns to the limit flag of its axis
  only when it found the flag set, and then it clears it.
\<close>

theorem soft_limit_recovery_frame:
  "(\<not> close s1 \<and> \<not> clockwise_limit_reached s1 \<and> position e1 < - 400
      \<and> rotation_motor_controller e1 ra s1 = Some (st1, ra', s1', tr1)
     \<longrightarrow> writes tr1 = [W_correction_in_progress True, W_correction_in_progress False]
         \<and> s1' = s1\<lparr>correction_in_progress := False\<rparr>
         \<and> top_limit_reached s1' = top_limit_reached s1
         \<and> clockwise_limit_reached s1' = clockwise_limit_reached s1
         \<and> rotation s1' = rotation s1 \<and> elevation s1' = elevation s1 \<and> claw s1' = claw s1)
   \<and> (\<not> close s2 \<and> \<not> top_limit_reached s2 \<and> position e2 > 200
      \<and> elevation_motor_controller e2 ea s2 = Some (st2, ea', s2', tr2)
     \<longrightarrow> writes tr2 = [W_correction_in_progress True, W_correction_in_progress False]
         \<and> s2' = s2\<lparr>correction_in_progress := False\<rparr>
         \<and> top_limit_reached s2' = top_limit_reached s2
         \<and> clockwise_limit_reached s2' = clockwise_limit_reached s2
         \<and> rotation s2' = rotation s2 \<and> elevation s2' = elevation s2 \<and> claw s2' = claw s2)
   \<and> (rotation_motor_controller e3 ra3 s3 = Some (st3, ra3', s3', tr3)
      \<and> W_clockwise_limit_reached b3 \<in> set (writes tr3)
     \<longrightarrow> \<not> close s3 \<and> clockwise_limit_reached s3 \<and> \<not> b3)
   \<and> (elevation_motor_controller e4 ea4 s4 = Some (st4, ea4', s4', tr4)
      \<and> W_top_limit_reached b4 \<in> set (writes tr4)
     \<longrightarrow> \<not> close s4 \<and> top_limit_reached s4 \<and> \<not> b4)"
proof -
  have r1: "writes tr1 = [W_correction_in_progress True, W_correction_in_progress False]
         \<and> s1' = s1\<lparr>correction_in_progress := False\<rparr>"
    if "\<not> close s1" "\<not> clockwise_limit_reached s1" "position e1 < - 400"
      "rotation_motor_controller e1 ra s1 = Some (st1, ra', s1', tr1)"
  proof -
    from iteration_writes [OF that(4) [unfolded rotation_motor_controller_def] that(1)]
    obtain b where b: "rotation_motor_controller_body e1 ra s1 = Some (ra', b)"
      "writes tr1 = writes b" "s1' = fold apply_write (writes b) s1" by blast
    from rotation_body_cases [OF b(1)] that(2,3)
    have "writes b = [W_correction_in_progress True, W_correction_in_progress False]" by auto
    with b show ?thesis by simp
  qed
  have r2: "writes tr2 = [W_correction_in_progress True, W_correction_in_progress False]
         \<and> s2' = s2\<lparr>correction_in_progress := False\<rparr>"
    if "\<not> close s2" "\<not> top_limit_reached s2" "position e2 > 200"
      "elevation_motor_controller e2 ea s2 = Some (st2, ea', s2', tr2)"
  proof -
    from iteration_writes [OF that(4) [unfolded elevation_motor_controller_def] that(1)]
    obtain b where b: "elevation_motor_controller_body e2 ea s2 = Some (ea', b)"
      "writes tr2 = writes b" "s2' = fold apply_write (writes b) s2" by blast
    from elevation_body_cases [OF b(1)] that(2,3)
    have "writes b = [W_correction_in_progress True, W_correction_in_progress False]" by auto
    with b show ?thesis by simp
  qed
  have r3: "\<not> close s3 \<and> clockwise_limit_reached s3 \<and> \<not> b3"
    if "rotation_motor_controller e3 ra3 s3 = Some (st3, ra3', s3', tr3)"
      "W_clockwise_limit_reached b3 \<in> set (writes tr3)"
  proof -
    have nc: "\<not> close s3"
      using iteration_SomeD [OF that(1) [unfolded rotation_motor_controller_def]] that(2)
      by auto
    from iteration_writes [OF that(1) [unfolded rotation_motor_controller_def] nc]
    obtain b where b: "rotation_motor_controller_body e3 ra3 s3 = Some (ra3', b)"
      "writes tr3 = writes b" by blast
    from rotation_body_cases [OF b(1)] that(2) b(2) nc show ?thesis by auto
  qed
  have r4: "\<not> close s4 \<and> top_limit_reached s4 \<and> \<not> b4"
    if "elevation_motor_controller e4 ea4 s4 = Some (st4, ea4', s4', tr4)"
      "W_top_limit_reached b4 \<in> set (writes tr4)"
  proof -
    have nc: "\<not> close s4"
      using iteration_SomeD [OF that(1) [unfolded elevation_motor_controller_def]] that(2)
      by auto
    from iteration_writes [OF that(1) [unfolded elevation_motor_controller_def] nc]
    obtain b where b: "elevation_motor_controller_body e4 ea4 s4 = Some (ea4', b)"
      "writes tr4 = writes b" by blast
    from elevation_body_cases [OF b(1)] that(2) b(2) nc show ?thesis by auto
  qed
  show ?thesis
    apply (intro conjI impI)
    using r1 r2 r3 r4 by simp_all
qed

theorem soft_limit_recovery_frame_witness:
  "(\<not> close far_left \<and> \<not> clockwise_limit_reached far_left \<and> position overshoot_left < - 400
      \<and> rotation_motor_controller overshoot_left ROTATE_LEFT far_left
          = Some (Continue, ROTATE_STOP, far_left, rotation_absolute_trace))
   \<and> top_limit_reached far_left
   \<and> (\<not> close far_down \<and> \<not> top_limit_reached far_down \<and> position overshoot_down > 200
      \<and> elevation_motor_controller overshoot_down LOWER far_down
          = Some (Continue, ELEVATE_STOP, far_down, elevation_absolute_trace))
   \<and> clockwise_limit_reached far_down
   \<and> (rotation_motor_controller slow_left_env ROTATE_RIGHT both_limits =
        Some (Continue, ROTATE_STOP,
           both_limits\<lparr>clockwise_limit_reached := False, correction_in_progress := False\<rparr>,
           rotation_recovery_trace)
      \<and> W_clockwise_limit_reached False \<in> set (writes rotation_recovery_trace))
   \<and> (elevation_motor_controller slow_down_env RISE both_limits =
        Some (Continue, ELEVATE_STOP,
           both_limits\<lparr>top_limit_reached := False, correction_in_progress := False\<rparr>,
           elevation_recovery_trace)
      \<and> W_top_limit_reached False \<in> set (writes elevation_recovery_trace))
   \<and> writes rotation_absolute_trace
       = [W_correction_in_progress True, W_correction_in_progress False]
   \<and> writes elevation_absolute_trace
       = [W_correction_in_progress True, W_correction_in_progress False]
   \<and> clockwise_limit_reached both_limits \<and> top_limit_reached both_limits"
proof -
  have h1: "\<not> close far_left \<and> \<not> clockwise_limit_reached far_left
      \<and> position overshoot_left < - 400
      \<and> rotation_motor_controller overshoot_left ROTATE_LEFT far_left
          = Some (Continue, ROTATE_STOP, far_left, rotation_absolute_trace)"
    using rotation_absolute_iteration
    by (simp add: far_left_def initial_shared_def overshoot_left_def quiet_env_def)
  have h2: "\<not> close far_down \<and> \<not> top_limit_reached far_down \<and> position overshoot_down > 200
      \<and> elevation_motor_controller overshoot_down LOWER far_down
          = Some (Continue, ELEVATE_STOP, far_down, elevation_absolute_trace)"
    using elevation_absolute_iteration
    by (simp add: far_down_def initial_shared_def overshoot_down_def quiet_env_def)
  have h3: "rotation_motor_controller slow_left_env ROTATE_RIGHT both_limits =
        Some (Continue, ROTATE_STOP,
           both_limits\<lparr>clockwise_limit_reached := False, correction_in_progress := False\<rparr>,
           rotation_recovery_trace)
      \<and> W_clockwise_limit_reached False \<in> set (writes rotation_recovery_trace)"
    using rotation_recovery_iteration by (simp add: rotation_recovery_trace_def)
  have h4: "elevation_motor_controller slow_down_env RISE both_limits =
        Some (Continue, ELEVATE_STOP,
           both_limits\<lparr>top_limit_reached := False, correction_in_progress := False\<rparr>,
           elevation_recovery_trace)
      \<and> W_top_limit_reached False \<in> set (writes elevation_recovery_trace)"
    using elevation_recovery_iteration by (simp add: elevation_recovery_trace_def)
  have t1: "top_limit_reached far_left" by (simp add: far_left_def)
  have t2: "clockwise_limit_reached far_down" by (simp add: far_down_def)
  note inst = soft_limit_recovery_frame
    [of far_left overshoot_left ROTATE_LEFT Continue ROTATE_STOP far_left rotation_absolute_trace
        far_down overshoot_down LOWER Continue ELEVATE_STOP far_down elevation_absolute_trace
        slow_left_env ROTATE_RIGHT both_limits Continue ROTATE_STOP
        "both_limits\<lparr>clockwise_limit_reached := False, correction_in_progress := False\<rparr>"
        rotation_recovery_trace False
        slow_down_env RISE both_limits Continue ELEVATE_STOP
        "both_limits\<lparr>top_limit_reached := False, correction_in_progress := False\<rparr>"
        elevation_recovery_trace False]
  from inst h1 h2 h3 h4 t1 t2 show ?thesis by blast
qed

section \<open>The published intent\<close>

text \<open>
  Claim C6. Every iteration of the button sampler that runs its body publishes: rotation
  STOP when LEFT and RIGHT are both pressed or neither is, else the pressed direction;
  elevation STOP when UP and DOWN are both pressed or neither is, RISE when only UP, LOWER
  when only DOWN; claw ACTIVE exactly when CENTER is pressed. The mutex of the intent is
  taken once, the three fields are assigned, and none of them outside that hold.
\<close>

theorem buttons_publish_intent:
  "\<not> close s \<longrightarrow>
     (\<exists>s' tr. buttons_controller e () s
                 = Some (if sleep_rc e = 0 then Continue else Abort_process, (), s', tr)
        \<and> rotation s' =
            (if pressed e BUTTON_LEFT \<and> pressed e BUTTON_RIGHT then ROTATE_STOP
             else if pressed e BUTTON_LEFT then ROTATE_LEFT
             else if pressed e BUTTON_RIGHT then ROTATE_RIGHT
             else ROTATE_STOP)
        \<and> elevation s' =
            (if pressed e BUTTON_UP \<and> pressed e BUTTON_DOWN then ELEVATE_STOP
             else if pressed e BUTTON_UP then RISE
             else if pressed e BUTTON_DOWN then LOWER
             else ELEVATE_STOP)
        \<and> (claw s' = ACTIVE \<longleftrightarrow> pressed e BUTTON_CENTER)
        \<and> count_list tr (Mutex_lock Motors_mutex) = 1
        \<and> length (filter is_intent_write tr) = 3
        \<and> unprotected False tr = [])"
  by (auto simp: buttons_controller_def iteration_def buttons_controller_body_def
      is_close_pressed_def CHK_def)

theorem buttons_publish_intent_witness:
  "\<not> close initial_shared
   \<and> (pressed chord_env BUTTON_LEFT \<and> pressed chord_env BUTTON_RIGHT)
   \<and> (pressed chord_env BUTTON_UP \<and> \<not> pressed chord_env BUTTON_DOWN)
   \<and> pressed chord_env BUTTON_CENTER
   \<and> (\<exists>s' tr. buttons_controller chord_env () initial_shared = Some (Continue, (), s', tr)
        \<and> rotation s' = ROTATE_STOP \<and> elevation s' = RISE \<and> claw s' = ACTIVE
        \<and> count_list tr (Mutex_lock Motors_mutex) = 1
        \<and> length (filter is_intent_write tr) = 3
        \<and> unprotected False tr = [])"
proof -
  have h: "\<not> close initial_shared" by (simp add: initial_shared_def)
  have p: "pressed chord_env BUTTON_LEFT" "pressed chord_env BUTTON_RIGHT"
    "pressed chord_env BUTTON_UP" "\<not> pressed chord_env BUTTON_DOWN"
    "pressed chord_env BUTTON_CENTER" "sleep_rc chord_env = 0"
    by (simp_all add: chord_env_def quiet_env_def)
  from buttons_publish_intent [of initial_shared chord_env] h
  show ?thesis using p by simp
qed

section \<open>Repeating the same intent\<close>

text \<open>
  Claim C7. In a run of iterations of the rotation (elevation) controller in which no limit
  condition holds and the intent field read is the same each time, only the first
  iteration commands the motor, and only if the current action differs from that intent:
  it sets the duty cycle of the intent. Every later iteration commands nothing, the
  current action being the intent from the first iteration on.
\<close>

theorem same_intent_one_command:
  "((\<forall>(e, s) \<in> set obs1. \<not> clockwise_limit_reached s \<and> \<not> position e < - 400
        \<and> rotation s = a1)
      \<and> thread_run rotation_motor_controller ra obs1 = Some (lf1, trs1)
     \<longrightarrow> (\<forall>i < length trs1. motor_commands (trs1 ! i) =
           (if i = 0 \<and> ra \<noteq> a1 \<and> \<not> close (snd (hd obs1))
            then [(Rotation_motor, Set_duty_cycle_sp
                    (case a1 of ROTATE_RIGHT \<Rightarrow> 30 | ROTATE_LEFT \<Rightarrow> - 30
                     | ROTATE_STOP \<Rightarrow> 0))]
            else [])))
   \<and> ((\<forall>(e, s) \<in> set obs2. \<not> top_limit_reached s \<and> \<not> position e > 200
        \<and> elevation s = a2)
      \<and> thread_run elevation_motor_controller ea obs2 = Some (lf2, trs2)
     \<longrightarrow> (\<forall>i < length trs2. motor_commands (trs2 ! i) =
           (if i = 0 \<and> ea \<noteq> a2 \<and> \<not> close (snd (hd obs2))
            then [(Elevation_motor, Set_duty_cycle_sp
                    (case a2 of RISE \<Rightarrow> - 30 | LOWER \<Rightarrow> 20 | ELEVATE_STOP \<Rightarrow> 0))]
            else [])))"
  using rotation_run_commands [of obs1 a1 ra lf1 trs1]
    elevation_run_commands [of obs2 a2 ea lf2 trs2]
  by blast

theorem same_intent_one_command_witness:
  "(\<not> clockwise_limit_reached left_held \<and> \<not> position quiet_env < - 400
      \<and> rotation left_held = ROTATE_LEFT)
   \<and> thread_run rotation_motor_controller ROTATE_STOP
        [(quiet_env, left_held), (quiet_env, left_held), (quiet_env, left_held)]
      = Some (ROTATE_LEFT, [left_trace, left_idle_trace, left_idle_trace])
   \<and> motor_commands left_trace = [(Rotation_motor, Set_duty_cycle_sp (- 30))]
   \<and> motor_commands left_idle_trace = []
   \<and> (\<not> top_limit_reached up_held \<and> \<not> position quiet_env > 200 \<and> elevation up_held = RISE)
   \<and> thread_run elevation_motor_controller ELEVATE_STOP
        [(quiet_env, up_held), (quiet_env, up_held), (quiet_env, up_held)]
      = Some (RISE, [up_trace, up_idle_trace, up_idle_trace])
   \<and> motor_commands up_trace = [(Elevation_motor, Set_duty_cycle_sp (- 30))]
   \<and> motor_commands up_idle_trace = []"
proof -
  let ?obs1 = "[(quiet_env, left_held), (quiet_env, left_held), (quiet_env, left_held)]"
  let ?obs2 = "[(quiet_env, up_held), (quiet_env, up_held), (quiet_env, up_held)]"
  have h1: "\<forall>(e, s) \<in> set ?obs1.
       \<not> clockwise_limit_reached s \<and> \<not> position e < - 400 \<and> rotation s = ROTATE_LEFT"
    by (simp add: quiet_env_def left_held_def initial_shared_def)
  have r1: "thread_run rotation_motor_controller ROTATE_STOP ?obs1
      = Some (ROTATE_LEFT, [left_trace, left_idle_trace, left_idle_trace])"
    by (simp add: left_iteration left_idle_iteration)
  have h2: "\<forall>(e, s) \<in> set ?obs2.
       \<not> top_limit_reached s \<and> \<not> position e > 200 \<and> elevation s = RISE"
    by (simp add: quiet_env_def up_held_def initial_shared_def)
  have r2: "thread_run elevation_motor_controller ELEVATE_STOP ?obs2
      = Some (RISE, [up_trace, up_idle_trace, up_idle_trace])"
    by (simp add: up_iteration up_idle_iteration)
  have nc: "\<not> close (snd (hd ?obs1))" "\<not> close (snd (hd ?obs2))"
    by (simp_all add: left_held_def up_held_def initial_shared_def)
  note inst = same_intent_one_command
    [of ?obs1 ROTATE_LEFT ROTATE_STOP ROTATE_LEFT "[left_trace, left_idle_trace, left_idle_trace]"
        ?obs2 RISE ELEVATE_STOP RISE "[up_trace, up_idle_trace, up_idle_trace]"]
  from inst h1 r1 have c1: "\<forall>i < 3. motor_commands ([left_trace, left_idle_trace, left_idle_trace] ! i) =
           (if i = 0 then [(Rotation_motor, Set_duty_cycle_sp (- 30))] else [])"
    using nc by simp
  from inst h2 r2 have c2: "\<forall>i < 3. motor_commands ([up_trace, up_idle_trace, up_idle_trace] ! i) =
           (if i = 0 then [(Elevation_motor, Set_duty_cycle_sp (- 30))] else [])"
    using nc by simp
  from c1 [rule_format, of 0] c1 [rule_format, of 1] c2 [rule_format, of 0] c2 [rule_format, of 1]
  have "motor_commands left_trace = [(Rotation_motor, Set_duty_cycle_sp (- 30))]"
    "motor_commands left_idle_trace = []"
    "motor_commands up_trace = [(Elevation_motor, Set_duty_cycle_sp (- 30))]"
    "motor_commands up_idle_trace = []"
    by simp_all
  moreover have "\<not> clockwise_limit_reached left_held \<and> \<not> position quiet_env < - 400
      \<and> rotation left_held = ROTATE_LEFT"
    "\<not> top_limit_reached up_held \<and> \<not> position quiet_env > 200 \<and> elevation up_held = RISE"
    using h1 h2 by simp_all
  ultimately show ?thesis using r1 r2 by blast
qed

section \<open>The first iteration with LEFT held\<close>

text \<open>
  Claim C8, as the specification states it, fails: in scenario S1 the first iteration of
  the rotation controller that reads the intent LEFT sets the duty cycle to -30 and issues
  no run-direct command.
\<close>

theorem first_left_tick_no_run_direct:
  "rotation_motor_controller quiet_env ROTATE_STOP left_held
     = Some (Continue, ROTATE_LEFT, left_held, left_trace)
   \<and> Motor Rotation_motor (Set_duty_cycle_sp (- 30)) \<in> set left_trace
   \<and> Motor Rotation_motor (Command RUN_DIRECT) \<notin> set left_trace"
  using left_iteration by (simp add: left_trace_def)

text \<open>
  Claim C8, amended. In scenario S1 (current action STOP, intent LEFT, no limit condition)
  the first iteration of the rotation controller that reads the intent LEFT commands the
  rotation motor once: it sets the duty cycle to -30. It issues no run-direct command; the
  last command of the calibration of that motor is run-direct, so the motor is in that
  mode already.
\<close>

theorem first_left_tick:
  "(\<not> close s \<and> rotation s = ROTATE_LEFT \<and> \<not> clockwise_limit_reached s
      \<and> \<not> position e < - 400
     \<longrightarrow> (\<exists>tr. rotation_motor_controller e ROTATE_STOP s
                 = Some (if sleep_rc e = 0 then Continue else Abort_process, ROTATE_LEFT, s, tr)
              \<and> motor_commands tr = [(Rotation_motor, Set_duty_cycle_sp (- 30))]
              \<and> Motor Rotation_motor (Command RUN_DIRECT) \<notin> set tr))
   \<and> (rotation_motor_initializer ie = Some (Exit_thread, itr)
     \<longrightarrow> (\<exists>pre. itr = pre @ [Motor Rotation_motor (Set_duty_cycle_sp 0),
                               Motor Rotation_motor (Command RUN_DIRECT),
                               Motor Rotation_motor (Set_position 0)]))"
proof (intro conjI impI)
  assume a: "\<not> close s \<and> rotation s = ROTATE_LEFT \<and> \<not> clockwise_limit_reached s
      \<and> \<not> position e < - 400"
  then have b: "rotation_motor_controller_body e ROTATE_STOP s = Some (ROTATE_LEFT,
      [Mutex_lock Motors_mutex, Mutex_unlock Motors_mutex,
       Mutex_lock Clockwise_mutex, Mutex_unlock Clockwise_mutex,
       Motor Rotation_motor Get_position,
       Motor Rotation_motor (Set_duty_cycle_sp (- 30))])"
    by (simp add: rotation_motor_controller_body_def is_clockwise_limit_reached_def
        TOP_LEFT_POS_def ROTATION_POWER_def)
  from a have nc: "\<not> close s" by simp
  show "\<exists>tr. rotation_motor_controller e ROTATE_STOP s
                 = Some (if sleep_rc e = 0 then Continue else Abort_process, ROTATE_LEFT, s, tr)
              \<and> motor_commands tr = [(Rotation_motor, Set_duty_cycle_sp (- 30))]
              \<and> Motor Rotation_motor (Command RUN_DIRECT) \<notin> set tr"
    unfolding rotation_motor_controller_def iteration_Some [OF nc b] by simp
next
  assume "rotation_motor_initializer ie = Some (Exit_thread, itr)"
  then show "\<exists>pre. itr = pre @ [Motor Rotation_motor (Set_duty_cycle_sp 0),
                               Motor Rotation_motor (Command RUN_DIRECT),
                               Motor Rotation_motor (Set_position 0)]"
    by (rule rotation_initializer_ends)
qed

theorem first_left_tick_witness:
  "(\<not> close left_held \<and> rotation left_held = ROTATE_LEFT
      \<and> \<not> clockwise_limit_reached left_held \<and> \<not> position quiet_env < - 400)
   \<and> (\<exists>tr. rotation_motor_controller quiet_env ROTATE_STOP left_held
              = Some (Continue, ROTATE_LEFT, left_held, tr)
          \<and> motor_commands tr = [(Rotation_motor, Set_duty_cycle_sp (- 30))]
          \<and> Motor Rotation_motor (Command RUN_DIRECT) \<notin> set tr)
   \<and> rotation_motor_initializer calib_env = Some (Exit_thread, rotation_calibration_trace)
   \<and> (\<exists>pre. rotation_calibration_trace
          = pre @ [Motor Rotation_motor (Set_duty_cycle_sp 0),
                   Motor Rotation_motor (Command RUN_DIRECT),
                   Motor Rotation_motor (Set_position 0)])"
proof -
  have h: "\<not> close left_held \<and> rotation left_held = ROTATE_LEFT
      \<and> \<not> clockwise_limit_reached left_held \<and> \<not> position quiet_env < - 400"
    by (simp add: left_held_def initial_shared_def quiet_env_def)
  have z: "sleep_rc quiet_env = 0" by (simp add: quiet_env_def)
  note inst = first_left_tick [of left_held quiet_env calib_env rotation_calibration_trace]
  from inst h z rotation_calibration show ?thesis by simp
qed

section \<open>The correction flag\<close>

text \<open>
  Claim C3 fails on the code. Each recovery branch, taken alone, sets
  \<open>correction_in_progress\<close> before its motion command and clears it after the power cut:
  along the events of one controller the flag is true wherever its motor is inside a
  recovery move, and false after the recovery. But the flag is one boolean written by both controllers,
  which run as two threads of the same priority. With both sensor limits flagged, the
  rotation controller enters its recovery and sleeps in its polling loop (the events
  \<open>rotation_entered\<close>; the rest of its iteration, \<open>rotation_rest\<close>, is still to come and
  reads no global). The elevation controller then runs its whole recovery from the globals
  it finds, and its exit clears the flag: the rotation motor is inside its recovery move
  and \<open>correction_in_progress\<close> is false.
\<close>

theorem correction_flag_cleared_during_recovery:
  "rotation_motor_controller_body slow_left_env ROTATE_RIGHT both_limits
     = Some (ROTATE_STOP, rotation_entered @ rotation_rest)
   \<and> in_recovery Rotation_motor rotation_entered
   \<and> correction_in_progress (run_events rotation_entered both_limits)
   \<and> top_limit_reached (run_events rotation_entered both_limits)
   \<and> elevation_motor_controller_body quiet_env RISE (run_events rotation_entered both_limits)
     = Some (ELEVATE_STOP, elevation_quick)
   \<and> in_recovery Rotation_motor (rotation_entered @ elevation_quick)
   \<and> \<not> correction_in_progress (run_events (rotation_entered @ elevation_quick) both_limits)"
proof -
  have a: "rotation_motor_controller_body slow_left_env ROTATE_RIGHT both_limits
     = Some (ROTATE_STOP, rotation_entered @ rotation_rest)"
    by (simp add: rotation_motor_controller_body_def is_clockwise_limit_reached_def
        locked_write_def slow_left_env_def quiet_env_def both_limits_def initial_shared_def
        wait_slow wait_trace_2 rotation_entered_def rotation_rest_def ROTATION_INIT_UNITS_def)
  have s1: "run_events rotation_entered both_limits
      = both_limits\<lparr>correction_in_progress := True\<rparr>"
    by (simp add: rotation_entered_def)
  have b: "elevation_motor_controller_body quiet_env RISE
       (both_limits\<lparr>correction_in_progress := True\<rparr>) = Some (ELEVATE_STOP, elevation_quick)"
    by (simp add: elevation_motor_controller_body_def is_top_limit_reached_def
        locked_write_def quiet_env_def both_limits_def initial_shared_def
        wait_quiet wait_trace_0 elevation_quick_def ELEVATION_INIT_UNITS_def)
  have c: "in_recovery Rotation_motor rotation_entered"
    "in_recovery Rotation_motor (rotation_entered @ elevation_quick)"
    by (simp_all add: in_recovery_def recovery_step_def rotation_entered_def
        elevation_quick_def)
  have d: "\<not> correction_in_progress (run_events (rotation_entered @ elevation_quick) both_limits)"
    by (simp add: run_events_append s1) (simp add: elevation_quick_def)
  have e: "top_limit_reached (both_limits\<lparr>correction_in_progress := True\<rparr>)"
    by (simp add: both_limits_def)
  from a b c d e show ?thesis unfolding s1 by simp
qed

section \<open>Failing device operations\<close>

text \<open>
  Claim C4, as the specification states it, fails: an iteration of the colour sampler in
  which the device calls return -1 goes on as usual, prints nothing and leaves the close
  flag false.
\<close>

theorem failed_device_call_unnoticed:
  "dev_rc failing_env 0 = - 1
   \<and> color_sensor_controller failing_env () initial_shared
       = Some (Continue, (), initial_shared, color_quiet_trace)
   \<and> close initial_shared = False"
  by (simp add: color_sensor_controller_def iteration_def
      is_close_pressed_def color_sensor_controller_body_def failing_env_def quiet_env_def
      initial_shared_def REFLECTION_LIMIT_def color_quiet_trace_def)

text \<open>
  Claim C4, amended. No periodic activity looks at the result of a device operation: an
  iteration does the same whatever the device calls return. It prints nothing, and the close
  flag after it is set only if it was set before or the iteration is the button sampler's
  with BACK pressed. The one call that is checked is the clock sleep at the end of the
  period: the iteration stops the process exactly when it ran its body and that sleep
  failed.
\<close>

theorem device_results_ignored:
  "activity_iteration X Y a (e\<lparr>dev_rc := r\<rparr>) l s = activity_iteration X Y a e l s
   \<and> (activity_iteration X Y a e l s = Some (st, l', s', tr)
       \<longrightarrow> (\<forall>msg. Printf msg \<notin> set tr)
           \<and> close s' = (close s \<or> (a = Buttons \<and> pressed e BUTTON_BACK))
           \<and> (st = Abort_process \<longleftrightarrow> \<not> close s \<and> sleep_rc e \<noteq> 0))"
proof (intro conjI impI)
  show "activity_iteration X Y a (e\<lparr>dev_rc := r\<rparr>) l s = activity_iteration X Y a e l s"
    by (rule dev_rc_unused)
next
  assume a: "activity_iteration X Y a e l s = Some (st, l', s', tr)"
  note f = activity_iteration_facts [OF a]
  from f show "\<forall>msg. Printf msg \<notin> set tr" by blast
  from f have "close s' = (close s \<or> W_close True \<in> set (writes tr))"
    using close_fold [of "writes tr" s] by simp
  with f show "close s' = (close s \<or> (a = Buttons \<and> pressed e BUTTON_BACK))" by auto
  from f show "st = Abort_process \<longleftrightarrow> \<not> close s \<and> sleep_rc e \<noteq> 0" by auto
qed

theorem device_results_ignored_witness:
  "activity_iteration 178 128 Color quiet_env initial_locals initial_shared
     = Some (Continue, initial_locals, initial_shared, color_quiet_trace)
   \<and> activity_iteration 178 128 Color failing_env initial_locals initial_shared
     = Some (Continue, initial_locals, initial_shared, color_quiet_trace)
   \<and> activity_iteration 178 128 Color failing_env initial_locals initial_shared
     = activity_iteration 178 128 Color quiet_env initial_locals initial_shared
   \<and> close initial_shared = False
   \<and> Continue \<noteq> Abort_process"
proof -
  have e: "failing_env = quiet_env\<lparr>dev_rc := (\<lambda>k. - 1)\<rparr>" by (simp add: failing_env_def)
  note inst = device_results_ignored
    [where X = 178 and Y = 128 and a = Color and e = quiet_env and r = "\<lambda>k. - 1"
       and l = initial_locals and s = initial_shared and st = Continue
       and l' = initial_locals and s' = initial_shared and tr = color_quiet_trace]
  from inst color_failing_iteration [of 178 128] show ?thesis
    unfolding e by (simp add: initial_shared_def)
qed

section \<open>The close flag\<close>

text \<open>
  Claim C5. In every execution (any schedule of iterations of the eight threads), no thread
  assigns false to the close flag, so once it is true it stays true. And from a state in
  which it is true, every run ends; each thread that gets to run tests the flag once
  (locking and unlocking its mutex), leaves its loop and does nothing more: the only events
  are those tests, at most one per thread, and every scheduled thread has left its loop.
\<close>

theorem close_latches_and_stops:
  "(system_run X Y sch sys = Some sys'
     \<longrightarrow> (\<exists>new. log sys' = log sys @ new
            \<and> (\<forall>(b, tr) \<in> set new. W_close False \<notin> set (writes tr))
            \<and> (close (globals sys) \<longrightarrow> close (globals sys'))))
   \<and> (close (globals sys)
     \<longrightarrow> (\<exists>sys'' new. system_run X Y sch sys = Some sys''
            \<and> log sys'' = log sys @ new
            \<and> (\<forall>(b, tr) \<in> set new. tr = [Mutex_lock Close_mutex, Mutex_unlock Close_mutex])
            \<and> distinct (map fst new)
            \<and> (\<not> aborted sys \<longrightarrow> (\<forall>b \<in> fst ` set sch. state_of sys'' b \<noteq> Continue))))"
proof (intro conjI impI)
  assume "system_run X Y sch sys = Some sys'"
  then show "\<exists>new. log sys' = log sys @ new
            \<and> (\<forall>(b, tr) \<in> set new. W_close False \<notin> set (writes tr))
            \<and> (close (globals sys) \<longrightarrow> close (globals sys'))"
    by (rule run_facts)
next
  assume "close (globals sys)"
  from run_after_close [OF this, of X Y sch] obtain sys'' new where
    "system_run X Y sch sys = Some sys''" "log sys'' = log sys @ new"
    "\<forall>(b, tr) \<in> set new. tr = [Mutex_lock Close_mutex, Mutex_unlock Close_mutex]
        \<and> state_of sys b = Continue"
    "distinct (map fst new)"
    "\<not> aborted sys \<longrightarrow> (\<forall>b \<in> fst ` set sch. state_of sys'' b \<noteq> Continue)"
    by blast
  then show "\<exists>sys'' new. system_run X Y sch sys = Some sys''
            \<and> log sys'' = log sys @ new
            \<and> (\<forall>(b, tr) \<in> set new. tr = [Mutex_lock Close_mutex, Mutex_unlock Close_mutex])
            \<and> distinct (map fst new)
            \<and> (\<not> aborted sys \<longrightarrow> (\<forall>b \<in> fst ` set sch. state_of sys'' b \<noteq> Continue))"
    by (intro exI [of _ sys''] exI [of _ new]) auto
qed

theorem close_latches_and_stops_witness:
  "close (globals closed_system) \<and> \<not> aborted closed_system
   \<and> system_run 178 128 closing_schedule closed_system
     = Some (closed_system\<lparr>state_of := (\<lambda>a. if a = Rotation \<or> a = Leds then Exit_thread else Continue),
          log := [(Rotation, [Mutex_lock Close_mutex, Mutex_unlock Close_mutex]),
                  (Leds, [Mutex_lock Close_mutex, Mutex_unlock Close_mutex])]\<rparr>)
   \<and> (\<exists>sys'' new. system_run 178 128 closing_schedule closed_system = Some sys''
         \<and> log sys'' = log closed_system @ new
         \<and> distinct (map fst new)
         \<and> state_of sys'' Rotation \<noteq> Continue \<and> state_of sys'' Leds \<noteq> Continue
         \<and> close (globals sys''))"
proof -
  have h: "close (globals closed_system)" "\<not> aborted closed_system"
    by (simp_all add: closed_system_def initial_system_def)
  note inst = close_latches_and_stops [of 178 128 closing_schedule closed_system
      "closed_system\<lparr>state_of := (\<lambda>a. if a = Rotation \<or> a = Leds then Exit_thread else Continue),
          log := [(Rotation, [Mutex_lock Close_mutex, Mutex_unlock Close_mutex]),
                  (Leds, [Mutex_lock Close_mutex, Mutex_unlock Close_mutex])]\<rparr>"]
  from inst h closing_run obtain sys'' new where r:
    "system_run 178 128 closing_schedule closed_system = Some sys''"
    "log sys'' = log closed_system @ new" "distinct (map fst new)"
    "\<forall>b \<in> fst ` set closing_schedule. state_of sys'' b \<noteq> Continue"
    by blast
  from r(4) have "state_of sys'' Rotation \<noteq> Continue" "state_of sys'' Leds \<noteq> Continue"
    by (simp_all add: closing_schedule_def)
  moreover from r(1) closing_run h(1) have "close (globals sys'')" by auto
  ultimately show ?thesis using h closing_run r by blast
qed

section \<open>The LEDs at startup\<close>

text \<open>
  Claim C9 fails on the code. The startup code calls \<open>ev3_init_led\<close> and never
  \<open>ev3_set_led\<close>, and the LED reporter, starting from \<open>previous = false\<close>, writes only
  on a change of \<open>correction_in_progress\<close>: green is written for the first time when the
  first correction has ended. So when the threads start, and through every iteration of
  the reporter before the first correction, the LEDs are what \<open>ev3_init_led\<close> made of
  their state at program start. The program itself leaves them red when BACK is pressed
  during a correction (the reporter turns them red and leaves its loop at its next test of
  the close flag). With LEDs red at the start and an \<open>ev3_init_led\<close> that writes no
  brightness, the next run goes through its startup and the idle iterations of the
  reporter with both LEDs red and not green.
\<close>

theorem leds_not_green_before_first_correction:
  "thread_run leds_controller False [(quiet_env, correcting), (quiet_env, correcting_closed)]
     = Some (True, [leds_red_trace, leds_exit_trace])
   \<and> leds_after (\<lambda>b. b) (leds_red_trace @ leds_exit_trace) green_leds = red_leds
   \<and> main_startup good_startup = Some (Threads_created, startup_trace)
   \<and> thread_run leds_controller False [(quiet_env, initial_shared), (quiet_env, initial_shared)]
     = Some (False, [leds_idle_trace, leds_idle_trace])
   \<and> leds_after init_led (startup_trace @ leds_idle_trace @ leds_idle_trace) b = init_led b
   \<and> leds_after (\<lambda>b. b) (startup_trace @ leds_idle_trace @ leds_idle_trace) red_leds = red_leds
   \<and> red_leds LEFT_LED GREEN_LED = 0 \<and> red_leds RIGHT_LED GREEN_LED = 0
   \<and> red_leds LEFT_LED RED_LED = 255 \<and> red_leds RIGHT_LED RED_LED = 255"
proof -
  have a: "leds_after (\<lambda>b. b) (leds_red_trace @ leds_exit_trace) green_leds = red_leds"
  proof (intro ext)
    fix l c
    show "leds_after (\<lambda>b. b) (leds_red_trace @ leds_exit_trace) green_leds l c = red_leds l c"
      by (cases l; cases c)
        (simp_all add: leds_red_trace_def leds_exit_trace_def green_leds_def red_leds_def)
  qed
  have idle: "leds_after i leds_idle_trace x = x" for i x
    by (simp add: leds_idle_trace_def)
  have b: "leds_after i (startup_trace @ leds_idle_trace @ leds_idle_trace) x = i x" for i x
    using main_startup_leds [OF good_startup_run, of i x] by (simp add: leds_after_append idle)
  have c: "red_leds LEFT_LED GREEN_LED = 0" "red_leds RIGHT_LED GREEN_LED = 0"
    "red_leds LEFT_LED RED_LED = 255" "red_leds RIGHT_LED RED_LED = 255"
    by (simp_all add: red_leds_def)
  from a b [of init_led b] b [of "\<lambda>b. b" red_leds] c leds_red_run good_startup_run leds_idle_run
  show ?thesis by simp
qed

end
